theory Spec2Isabelle
  imports Complex_Main "HOL-Library.Multiset"
begin

section \<open>Values shared by the pages\<close>

text \<open>
  An identifier is a number for the three demo users (\<open>id: 1\<close>) and a string for
  everything the pages generate (\<open>Date.now() + Math.random().toString(36)...\<close>).
\<close>

datatype js_id = IdNum int | IdStr string

text \<open>
  What \<open>new Date(s)\<close> yields for a stored string: a time value in milliseconds, or the
  invalid date, whose time value is \<open>NaN\<close>.
\<close>

datatype jsdate = InvalidDate | Instant int

text \<open>Exceptions that the modelled functions throw.\<close>

datatype exn = SyntaxError | TypeError | Error string

section \<open>Users and the login page\<close>

record user_core =
  name :: string
  email :: string
  password :: string

record user = user_core +
  user_id :: js_id
  role :: string
  department :: string
  joinDate :: string
  registrationDate :: "string option"

record userData = user_core +
  confirmPassword :: string

definition DEMO_USERS :: "user list" where
  "DEMO_USERS =
    [\<lparr>name = ''Alex Morgan'', email = ''student@university.edu'', password = ''password123'',
       user_id = IdNum 1, role = ''Product Designer'', department = ''Computer Science'',
       joinDate = ''2023-09-15'', registrationDate = None\<rparr>,
     \<lparr>name = ''Dr. Sarah Jenkins'', email = ''sarah@crudzaso.edu'', password = ''admin123'',
       user_id = IdNum 2, role = ''System Admin'', department = ''Computer Science'',
       joinDate = ''2020-09-14'', registrationDate = None\<rparr>,
     \<lparr>name = ''John Doe'', email = ''john@university.edu'', password = ''student456'',
       user_id = IdNum 3, role = ''Student'', department = ''Mathematics'',
       joinDate = ''2024-01-10'', registrationDate = None\<rparr>]"

text \<open>
  \<open>authenticateUser(email, password)\<close>: the result object \<open>{success: false, error}\<close> is
  \<open>Inl error\<close>, and \<open>{success: true, user}\<close> is \<open>Inr user\<close>. The function reads the
  constant \<open>DEMO_USERS\<close> and nothing else; it has no access to \<open>localStorage\<close>.
\<close>

definition authenticateUser :: "string \<Rightarrow> string \<Rightarrow> string + user" where
  "authenticateUser email' password' =
    (case find (\<lambda>u. email u = email') DEMO_USERS of
       None \<Rightarrow>
         Inl ''Invalid email or password. Please check your credentials and try again.''
     | Some u \<Rightarrow>
         if password u \<noteq> password'
         then Inl ''Invalid email or password. Please check your credentials and try again.''
         else Inr u)"

section \<open>The browser store\<close>

text \<open>
  \<open>localStorage\<close> maps a key to a string, and every page reads a key through
  \<open>JSON.parse\<close>. A stored string is modelled by what parsing it gives: text that is not
  JSON, the JSON value \<open>null\<close>, a task array, a user array, a session object, or some
  other JSON value. A key that is absent (\<open>getItem\<close> returns \<open>null\<close>) is \<open>None\<close>.
\<close>

text \<open>
  The session object that \<open>createUserSession\<close> stores. \<open>expires\<close> is \<open>None\<close> when the
  property is absent or falsy, and otherwise what \<open>new Date(session.expires)\<close> gives.
\<close>

record session =
  userId_s :: js_id
  email_s :: string
  name_s :: string
  role_s :: string
  department_s :: string
  loginTime :: string
  expires :: "jsdate option"

text \<open>
  A task: the fields that \<open>collectFormData\<close> reads from the form, and the four that
  \<open>saveTask\<close> adds. The title, category, priority, status and identifier are strings, as
  the pages assume when they call string methods on them. An optional field is \<open>None\<close>
  when the property is absent or \<open>null\<close>. \<open>dueDate\<close> is \<open>None\<close> when the property is
  absent or falsy, and otherwise what \<open>new Date(task.dueDate)\<close> gives; the timestamps are
  kept as the ISO strings they are stored as.
\<close>

record task_form =
  title :: string
  description :: "string option"
  category :: string
  priority :: string
  status :: string
  dueDate :: "jsdate option"
  estimatedHours :: "int option"
  assignee :: "string option"
  tags :: "string list option"
  difficulty :: "string option"

record task = task_form +
  task_id :: string
  createdAt :: "string option"
  updatedAt :: "string option"
  userId :: "js_id option"

datatype blob =
    Unparseable
  | NullJson
  | TasksJson "task list"
  | UsersJson "user list"
  | SessionJson session
  | OtherJson

type_synonym localStorage = "string \<rightharpoonup> blob"

definition removeItem :: "string \<Rightarrow> localStorage \<Rightarrow> localStorage" where
  "removeItem k ls = ls(k := None)"

definition setItem :: "string \<Rightarrow> blob \<Rightarrow> localStorage \<Rightarrow> localStorage" where
  "setItem k v ls = ls(k \<mapsto> v)"

section \<open>Registration\<close>

text \<open>
  \<open>JSON.parse(localStorage.getItem('crudzaso_users') || '[]')\<close>, followed by an array
  method: text that is not JSON throws a \<open>SyntaxError\<close>, a JSON value that is not an array
  has no such method and throws a \<open>TypeError\<close>. (Under the key of a collection the store
  is taken to hold that collection or no array at all.)
\<close>

definition parse_users :: "localStorage \<Rightarrow> exn + user list" where
  "parse_users ls =
    (case ls ''crudzaso_users'' of
       None \<Rightarrow> Inr []
     | Some (UsersJson us) \<Rightarrow> Inr us
     | Some Unparseable \<Rightarrow> Inl SyntaxError
     | Some _ \<Rightarrow> Inl TypeError)"

definition isEmailAlreadyRegistered :: "localStorage \<Rightarrow> string \<Rightarrow> exn + bool" where
  "isEmailAlreadyRegistered ls email' =
    (case parse_users ls of
       Inl e \<Rightarrow> Inl e
     | Inr existingUsers \<Rightarrow> Inr (list_ex (\<lambda>u. email u = email') existingUsers))"

text \<open>
  \<open>saveUserToDatabase\<close> catches every exception and returns \<open>null\<close> (\<open>None\<close>); the store
  is written only on the path that returns the user.
\<close>

definition saveUserToDatabase :: "localStorage \<Rightarrow> user \<Rightarrow> user option \<times> localStorage" where
  "saveUserToDatabase ls u =
    (case parse_users ls of
       Inl e \<Rightarrow> (None, ls)
     | Inr existingUsers \<Rightarrow>
         (Some u, setItem ''crudzaso_users'' (UsersJson (existingUsers @ [u])) ls))"

text \<open>
  \<open>registerNewUser(userData)\<close>. The generated identifier and the two readings of the
  clock (\<open>joinDate\<close>, \<open>registrationDate\<close>) are parameters. The outer \<open>Inl\<close> is an exception
  that escapes; the inner sum is the result object.
\<close>

definition registerNewUser ::
  "localStorage \<Rightarrow> userData \<Rightarrow> js_id \<Rightarrow> string \<Rightarrow> string
    \<Rightarrow> (exn + (string + user)) \<times> localStorage" where
  "registerNewUser ls ud newId today nowIso =
    (case isEmailAlreadyRegistered ls (email ud) of
       Inl e \<Rightarrow> (Inl e, ls)
     | Inr True \<Rightarrow>
         (Inr (Inl ''This email is already registered. Try signing in instead.''), ls)
     | Inr False \<Rightarrow>
         (let newUser = \<lparr>name = name ud, email = email ud, password = password ud,
                user_id = newId, role = ''Student'', department = ''General'',
                joinDate = today, registrationDate = Some nowIso\<rparr>
          in case saveUserToDatabase ls newUser of
               (Some savedUser, ls') \<Rightarrow> (Inr (Inr savedUser), ls')
             | (None, ls') \<Rightarrow>
                 (Inr (Inl ''Failed to save user data. Please try again.''), ls')))"

section \<open>Session checks\<close>

text \<open>\<open>clearSession\<close> of the login page and \<open>clearUserSession\<close> of the dashboard.\<close>

definition clearSession :: "localStorage \<Rightarrow> localStorage" where
  "clearSession ls = removeItem ''crudzaso_remember_me'' (removeItem ''crudzaso_user_session'' ls)"

definition clearUserSession :: "localStorage \<Rightarrow> localStorage" where
  "clearUserSession ls =
    removeItem ''crudzaso_remember_me'' (removeItem ''crudzaso_user_session'' ls)"

text \<open>
  \<open>checkExistingSession()\<close> of the login page, at the instant \<open>now\<close> (milliseconds) that
  \<open>new Date()\<close> reads. It returns its boolean and the store it leaves. A parsed value with
  no \<open>expires\<close> property, with a falsy one, or with one that is no date fails the test
  \<open>sessionData.expires && new Date() < new Date(sessionData.expires)\<close>; reading a property
  of \<open>null\<close> and parsing text that is not JSON throw, and the \<open>catch\<close> clears the session.
\<close>

definition checkExistingSession :: "int \<Rightarrow> localStorage \<Rightarrow> bool \<times> localStorage" where
  "checkExistingSession now ls =
    (case ls ''crudzaso_user_session'' of
       None \<Rightarrow> (False, ls)
     | Some Unparseable \<Rightarrow> (False, clearSession ls)
     | Some NullJson \<Rightarrow> (False, clearSession ls)
     | Some (SessionJson sessionData) \<Rightarrow>
         (case expires sessionData of
            Some (Instant e) \<Rightarrow> if now < e then (True, ls) else (False, clearSession ls)
          | Some InvalidDate \<Rightarrow> (False, clearSession ls)
          | None \<Rightarrow> (False, clearSession ls))
     | Some _ \<Rightarrow> (False, clearSession ls))"

text \<open>
  \<open>verifyUserAuthentication()\<close> of the dashboard: the session is refused only when
  \<open>session.expires && new Date() > new Date(session.expires)\<close>, or when parsing throws.
\<close>

definition verifyUserAuthentication :: "int \<Rightarrow> localStorage \<Rightarrow> bool \<times> localStorage" where
  "verifyUserAuthentication now ls =
    (case ls ''crudzaso_user_session'' of
       None \<Rightarrow> (False, ls)
     | Some Unparseable \<Rightarrow> (False, clearUserSession ls)
     | Some NullJson \<Rightarrow> (False, clearUserSession ls)
     | Some (SessionJson session) \<Rightarrow>
         (case expires session of
            Some (Instant e) \<Rightarrow> if now > e then (False, clearUserSession ls) else (True, ls)
          | Some InvalidDate \<Rightarrow> (True, ls)
          | None \<Rightarrow> (True, ls))
     | Some _ \<Rightarrow> (True, ls))"

section \<open>Saving a task\<close>

text \<open>
  The part of \<open>taskFormState\<close> that saving reads. \<open>currentTask\<close> is an object read by
  property name; the page creates it as \<open>{}\<close>, the empty map.
\<close>

record taskFormState =
  isEditing :: bool
  editingTaskId :: "string option"
  currentTask :: "string \<rightharpoonup> string"

definition parse_tasks :: "localStorage \<Rightarrow> exn + task list" where
  "parse_tasks ls =
    (case ls ''crudzaso_tasks'' of
       None \<Rightarrow> Inr []
     | Some (TasksJson ts) \<Rightarrow> Inr ts
     | Some Unparseable \<Rightarrow> Inl SyntaxError
     | Some _ \<Rightarrow> Inl TypeError)"

text \<open>\<open>Array.prototype.findIndex\<close>; \<open>None\<close> is the result \<open>-1\<close>.\<close>

fun findIndex :: "('a \<Rightarrow> bool) \<Rightarrow> 'a list \<Rightarrow> nat option" where
  "findIndex P [] = None"
| "findIndex P (x # xs) = (if P x then Some 0 else map_option Suc (findIndex P xs))"

text \<open>
  \<open>saveTaskToStorage(taskData)\<close>: the outcome (an exception, or normal return) and the
  store it leaves. \<open>localStorage.setItem\<close> is the last statement, after the \<open>throw\<close>.
\<close>

definition saveTaskToStorage ::
  "taskFormState \<Rightarrow> task \<Rightarrow> localStorage \<Rightarrow> (exn + unit) \<times> localStorage" where
  "saveTaskToStorage st taskData ls =
    (case parse_tasks ls of
       Inl e \<Rightarrow> (Inl e, ls)
     | Inr existingTasks \<Rightarrow>
         if isEditing st then
           (case findIndex (\<lambda>t. Some (task_id t) = editingTaskId st) existingTasks of
              Some taskIndex \<Rightarrow>
                (Inr (), setItem ''crudzaso_tasks''
                           (TasksJson (existingTasks[taskIndex := taskData])) ls)
            | None \<Rightarrow> (Inl (Error ''Task not found for editing''), ls))
         else
           (Inr (), setItem ''crudzaso_tasks'' (TasksJson (existingTasks @ [taskData])) ls))"

definition clearDraft :: "taskFormState \<Rightarrow> localStorage \<Rightarrow> localStorage" where
  "clearDraft st ls =
    (let draftKey =
       (if isEditing st
        then ''crudzaso_task_draft_'' @ (case editingTaskId st of Some i \<Rightarrow> i | None \<Rightarrow> ''null'')
        else ''crudzaso_new_task_draft'')
     in removeItem draftKey ls)"

text \<open>
  \<open>saveTask()\<close>. Its inputs from outside the store are parameters: the result of
  \<open>validateCompleteForm()\<close>, the object of \<open>collectFormData()\<close>, the identifier of
  \<open>generateTaskId()\<close>, the two readings \<open>new Date().toISOString()\<close> and \<open>currentUser.id\<close>.
  The \<open>catch\<close> block turns every exception into the result \<open>false\<close>. In edit mode
  \<open>determineFormMode\<close> has stored the identifier of the URL in \<open>editingTaskId\<close>; were it
  \<open>null\<close>, no stored task would match it and the record built here would not be stored.
\<close>

definition saveTask ::
  "taskFormState \<Rightarrow> bool \<Rightarrow> task_form \<Rightarrow> string \<Rightarrow> string \<Rightarrow> string \<Rightarrow> js_id
    \<Rightarrow> localStorage \<Rightarrow> bool \<times> localStorage" where
  "saveTask st formValid taskData newId now1 now2 currentUser_id ls =
    (if \<not> formValid then (False, ls)
     else
       (let taskToSave =
          \<lparr>title = title taskData, description = description taskData,
           category = category taskData, priority = priority taskData,
           status = status taskData, dueDate = dueDate taskData,
           estimatedHours = estimatedHours taskData, assignee = assignee taskData,
           tags = tags taskData, difficulty = difficulty taskData,
           task_id = (if isEditing st
                      then (case editingTaskId st of Some i \<Rightarrow> i | None \<Rightarrow> [])
                      else newId),
           createdAt = (if isEditing st then currentTask st ''createdAt'' else Some now1),
           updatedAt = Some now2,
           userId = Some currentUser_id\<rparr>
        in case saveTaskToStorage st taskToSave ls of
             (Inl e, ls') \<Rightarrow> (False, ls')
           | (Inr u, ls') \<Rightarrow> (True, clearDraft st ls')))"

section \<open>Strings\<close>

text \<open>
  A string is a list of code units below 256 (the type \<open>char\<close>): the Latin-1 range of
  JavaScript's strings. \<open>String.prototype.toLowerCase\<close> maps, in this range, the letters
  \<open>A\<close> to \<open>Z\<close> and the accented capitals \<open>U+00C0\<close> to \<open>U+00DE\<close> (without the
  multiplication sign \<open>U+00D7\<close>) to the code unit 32 above, and nothing else.
\<close>

definition toLowerCase_char :: "char \<Rightarrow> char" where
  "toLowerCase_char c =
    (let n = (of_char c :: nat)
     in if (65 \<le> n \<and> n \<le> 90) \<or> (192 \<le> n \<and> n \<le> 222 \<and> n \<noteq> 215)
        then char_of (n + 32) else c)"

definition toLowerCase :: "string \<Rightarrow> string" where
  "toLowerCase s = map toLowerCase_char s"

text \<open>
  \<open>String.prototype.trim\<close> removes white space and line terminators from both ends; below
  256 these are the code units 9 to 13, 32 and 160.
\<close>

definition isWhiteSpace :: "char \<Rightarrow> bool" where
  "isWhiteSpace c =
    (let n = (of_char c :: nat) in (9 \<le> n \<and> n \<le> 13) \<or> n = 32 \<or> n = 160)"

definition trim :: "string \<Rightarrow> string" where
  "trim s = rev (dropWhile isWhiteSpace (rev (dropWhile isWhiteSpace s)))"

text \<open>\<open>hay.includes(needle)\<close>: the needle occurs in the haystack as a contiguous run.\<close>

fun startsWith :: "string \<Rightarrow> string \<Rightarrow> bool" where
  "startsWith hay [] = True"
| "startsWith [] (n # ns) = False"
| "startsWith (h # hs) (n # ns) = (h = n \<and> startsWith hs ns)"

fun str_includes :: "string \<Rightarrow> string \<Rightarrow> bool" where
  "str_includes [] needle = (needle = [])"
| "str_includes (h # hs) needle = (startsWith (h # hs) needle \<or> str_includes hs needle)"

text \<open>
  \<open>s.replace(a, b)\<close> for a pattern \<open>a\<close> of one code unit: only the first occurrence is
  replaced.
\<close>

fun replace_char :: "char \<Rightarrow> char \<Rightarrow> string \<Rightarrow> string" where
  "replace_char a b [] = []"
| "replace_char a b (c # cs) = (if c = a then b # cs else c # replace_char a b cs)"

section \<open>Numbers\<close>

text \<open>
  A \<open>Number\<close> is an IEEE 754 binary64 value, and \<open>/\<close> and \<open>*\<close> return the exact
  result rounded to the nearest binary64 value, ties to the even significand. The
  statistics divide and multiply counts of tasks, so the values here are rationals that
  are zero or lie far inside the normal range (no overflow, no subnormal result, no
  \<open>NaN\<close>); counts and the constant 100 are binary64 values themselves.

  \<open>scale_round\<close> rounds a positive rational to 53 significant bits: it scales the value
  by powers of two into the interval from \<open>2^52\<close> to \<open>2^53\<close>, where the binary64 values
  are the integers, rounds there to the nearest integer, ties to even, and scales back.
\<close>

definition round_ties_even :: "rat \<Rightarrow> int" where
  "round_ties_even x =
    (let f = \<lfloor>x\<rfloor>; r = x - of_int f
     in if r < 1 / 2 then f
        else if 1 / 2 < r then f + 1
        else if even f then f else f + 1)"

function scale_round :: "rat \<Rightarrow> rat" where
  "scale_round q =
    (if q \<le> 0 then 0
     else if 2 ^ 53 \<le> q then 2 * scale_round (q / 2)
     else if q < 2 ^ 52 then scale_round (2 * q) / 2
     else of_int (round_ties_even q))"
  by pat_completeness auto

lemma halve_measure:
  fixes q :: rat
  assumes "2 ^ 53 \<le> q"
  shows "(if 2 ^ 53 \<le> q / 2 then nat \<lfloor>q / 2\<rfloor> else nat \<lceil>2 ^ 53 / (q / 2)\<rceil>) < nat \<lfloor>q\<rfloor>"
proof (cases "2 ^ 53 \<le> q / 2")
  case True
  have "q / 2 \<le> q - 1" using assms by simp
  then have "\<lfloor>q / 2\<rfloor> \<le> \<lfloor>q - 1\<rfloor>" by (rule floor_mono)
  then have "\<lfloor>q / 2\<rfloor> < \<lfloor>q\<rfloor>" by simp
  moreover have "0 < \<lfloor>q\<rfloor>" using assms by simp
  ultimately show ?thesis using True by simp
next
  case False
  have "2 ^ 53 / (q / 2) \<le> 2" using assms by (simp add: field_simps)
  then have up: "\<lceil>2 ^ 53 / (q / 2)\<rceil> \<le> 2" by (simp add: ceiling_le_iff)
  have low: "(2 ^ 53 :: int) \<le> \<lfloor>q\<rfloor>" using assms by (simp add: le_floor_iff)
  have "(2 :: int) < 2 ^ 53" by simp
  with up low have "\<lceil>2 ^ 53 / (q / 2)\<rceil> < \<lfloor>q\<rfloor>" by linarith
  moreover from low have "0 < \<lfloor>q\<rfloor>" by simp
  ultimately have "nat \<lceil>2 ^ 53 / (q / 2)\<rceil> < nat \<lfloor>q\<rfloor>" by linarith
  with False show ?thesis by (simp only: if_False)
qed

lemma double_measure:
  fixes q :: rat
  assumes "0 < q" and "q < 2 ^ 52"
  shows "nat \<lceil>2 ^ 53 / (2 * q)\<rceil> < nat \<lceil>2 ^ 53 / q\<rceil>"
proof -
  let ?r = "2 ^ 52 / q"
  have r: "1 < ?r" using assms by (simp add: field_simps)
  have a: "2 ^ 53 / (2 * q) = ?r" by simp
  have b: "2 ^ 53 / q = 2 * ?r" by simp
  have "?r + 1 \<le> 2 * ?r" using r by simp
  then have "\<lceil>?r + 1\<rceil> \<le> \<lceil>2 * ?r\<rceil>" by (rule ceiling_mono)
  then have "\<lceil>?r\<rceil> < \<lceil>2 * ?r\<rceil>" by simp
  moreover have "0 < ?r" using r by linarith
  then have "0 < \<lceil>?r\<rceil>" by (simp only: less_ceiling_iff of_int_0)
  ultimately have "nat \<lceil>?r\<rceil> < nat \<lceil>2 * ?r\<rceil>" by linarith
  then show ?thesis by (simp only: a b)
qed

termination scale_round
proof (relation "measure (\<lambda>q. if 2 ^ 53 \<le> q then nat \<lfloor>q\<rfloor> else nat \<lceil>2 ^ 53 / q\<rceil>)")
  show "wf (measure (\<lambda>q::rat. if 2 ^ 53 \<le> q then nat \<lfloor>q\<rfloor> else nat \<lceil>2 ^ 53 / q\<rceil>))"
    by simp
next
  fix q :: rat
  assume "\<not> q \<le> 0" and "2 ^ 53 \<le> q"
  then show "(q / 2, q) \<in> measure (\<lambda>q. if 2 ^ 53 \<le> q then nat \<lfloor>q\<rfloor> else nat \<lceil>2 ^ 53 / q\<rceil>)"
    using halve_measure [of q] by simp
next
  fix q :: rat
  assume "\<not> q \<le> 0" and "\<not> 2 ^ 53 \<le> q" and "q < 2 ^ 52"
  then show "(2 * q, q) \<in> measure (\<lambda>q. if 2 ^ 53 \<le> q then nat \<lfloor>q\<rfloor> else nat \<lceil>2 ^ 53 / q\<rceil>)"
    using double_measure [of q] by simp
qed

declare scale_round.simps [simp del]

definition binary64 :: "rat \<Rightarrow> rat" where
  "binary64 q = (if q < 0 then - scale_round (- q) else scale_round q)"

text \<open>\<open>a / b\<close> for \<open>b\<close> other than zero, and \<open>a * b\<close>.\<close>

definition js_divide :: "rat \<Rightarrow> rat \<Rightarrow> rat" where
  "js_divide a b = binary64 (a / b)"

definition js_times :: "rat \<Rightarrow> rat \<Rightarrow> rat" where
  "js_times a b = binary64 (a * b)"

text \<open>\<open>Math.round(x)\<close>: the nearest integer, a tie going up.\<close>

definition Math_round :: "rat \<Rightarrow> int" where
  "Math_round x = \<lfloor>x + 1 / 2\<rfloor>"

section \<open>Sorting an array\<close>

text \<open>
  \<open>Array.prototype.sort(comparefn)\<close> is a built-in of the engine that runs the pages; the
  repository holds no code of it. A comparator returns a number; \<open>None\<close> is \<open>NaN\<close>, which
  the sort reads as \<open>+0\<close>.
\<close>

definition SortCompare :: "('a \<Rightarrow> 'a \<Rightarrow> int option) \<Rightarrow> 'a \<Rightarrow> 'a \<Rightarrow> int" where
  "SortCompare comparefn x y = (case comparefn x y of None \<Rightarrow> 0 | Some v \<Rightarrow> v)"

text \<open>
  ECMAScript fixes the result of the sort only for a comparator that is a consistent
  ordering of the elements of the array. Here that is: no comparison of two elements is
  \<open>NaN\<close>, \<open>x\<close> compares below \<open>y\<close> exactly when \<open>y\<close> compares above \<open>x\<close>, and ``not
  above'' is transitive. (These conditions give the ones ECMAScript lists: a tie is
  reflexive, symmetric and transitive, and ``below'' and ``above'' are transitive.)
\<close>

definition consistent_comparator :: "('a \<Rightarrow> 'a \<Rightarrow> int option) \<Rightarrow> 'a set \<Rightarrow> bool" where
  "consistent_comparator comparefn S \<longleftrightarrow>
     (\<forall>a \<in> S. \<forall>b \<in> S.
        comparefn a b \<noteq> None
        \<and> (SortCompare comparefn a b < 0 \<longleftrightarrow> 0 < SortCompare comparefn b a))
     \<and> (\<forall>a \<in> S. \<forall>b \<in> S. \<forall>c \<in> S.
          SortCompare comparefn a b \<le> 0 \<and> SortCompare comparefn b c \<le> 0
          \<longrightarrow> SortCompare comparefn a c \<le> 0)"

text \<open>
  What ECMAScript requires of every engine's sort. The result always holds the elements of
  the array, each as often as the array does. When the comparator is a consistent ordering
  of them, no element of the result stands before one that compares below it, and the sort
  is stable: two elements that tie keep their relative order (all their occurrences do).
  For any other comparator the order is left to the engine.
\<close>

definition sort_contract :: "(('a \<Rightarrow> 'a \<Rightarrow> int option) \<Rightarrow> 'a list \<Rightarrow> 'a list) \<Rightarrow> bool" where
  "sort_contract sort_fn \<longleftrightarrow>
     (\<forall>comparefn xs.
        mset (sort_fn comparefn xs) = mset xs
        \<and> (consistent_comparator comparefn (set xs) \<longrightarrow>
             sorted_wrt (\<lambda>x y. \<not> SortCompare comparefn y x < 0) (sort_fn comparefn xs)
             \<and> (\<forall>a \<in> set xs. \<forall>b \<in> set xs. SortCompare comparefn a b = 0 \<longrightarrow>
                  filter (\<lambda>z. z = a \<or> z = b) (sort_fn comparefn xs)
                    = filter (\<lambda>z. z = a \<or> z = b) xs)))"

text \<open>
  Insertion sort: an element is put in front of the first element of the sorted rest that
  it does not have to follow. It meets the contract (\<open>array_sort_contract\<close> below), and for
  a consistent comparator every sort that meets the contract returns the list that
  insertion sort returns (\<open>sort_contract_unique\<close> below). It stands for the built-in sort
  only where the comparator is consistent.
\<close>

fun sort_insert :: "('a \<Rightarrow> 'a \<Rightarrow> int option) \<Rightarrow> 'a \<Rightarrow> 'a list \<Rightarrow> 'a list" where
  "sort_insert comparefn x [] = [x]"
| "sort_insert comparefn x (y # ys) =
     (if SortCompare comparefn x y \<le> 0 then x # y # ys
      else y # sort_insert comparefn x ys)"

fun array_sort :: "('a \<Rightarrow> 'a \<Rightarrow> int option) \<Rightarrow> 'a list \<Rightarrow> 'a list" where
  "array_sort comparefn [] = []"
| "array_sort comparefn (x # xs) = sort_insert comparefn x (array_sort comparefn xs)"

section \<open>The dashboard\<close>

definition PRIORITY_ORDER :: "string \<rightharpoonup> int" where
  "PRIORITY_ORDER = map_of [(''High'', 3), (''Medium'', 2), (''Low'', 1)]"

definition STATUS_ORDER :: "string \<rightharpoonup> int" where
  "STATUS_ORDER = map_of [(''Pending'', 1), (''In Progress'', 2), (''Completed'', 3)]"

text \<open>
  \<open>STATUS_ORDER[a.status] || 0\<close> and \<open>PRIORITY_ORDER[a.priority] || 0\<close>. The two tables are
  object literals, so a lookup also finds what every object inherits from
  \<open>Object.prototype\<close>: for the name of such a member the lookup gives a function (for
  \<open>__proto__\<close> the prototype object itself), which is truthy, so that \<open>|| 0\<close> keeps it.
  For a key of the table the value is its rank, and for any other string the lookup is
  \<open>undefined\<close> and the value is 0. Two inherited values are the same value exactly when
  they are the same member.
\<close>

datatype js_value = Number int | Inherited string

definition Object_prototype_members :: "string list" where
  "Object_prototype_members =
    [''constructor'', ''hasOwnProperty'', ''isPrototypeOf'', ''propertyIsEnumerable'',
     ''toLocaleString'', ''toString'', ''valueOf'', ''__proto__'',
     ''__defineGetter__'', ''__defineSetter__'', ''__lookupGetter__'', ''__lookupSetter__'']"

definition lookup_or_0 :: "(string \<rightharpoonup> int) \<Rightarrow> string \<Rightarrow> js_value" where
  "lookup_or_0 table key =
    (case table key of
       Some v \<Rightarrow> Number v
     | None \<Rightarrow> if key \<in> set Object_prototype_members then Inherited key else Number 0)"

definition statusPriority :: "'a task_scheme \<Rightarrow> js_value" where
  "statusPriority a = lookup_or_0 STATUS_ORDER (status a)"

definition priorityRank :: "'a task_scheme \<Rightarrow> js_value" where
  "priorityRank a = lookup_or_0 PRIORITY_ORDER (priority a)"

text \<open>
  \<open>x - y\<close> on two such values: the difference of two numbers. A function or an object
  converts to \<open>NaN\<close>, and then the difference is \<open>NaN\<close>.
\<close>

fun js_minus :: "js_value \<Rightarrow> js_value \<Rightarrow> int option" where
  "js_minus (Number x) (Number y) = Some (x - y)"
| "js_minus _ _ = None"

text \<open>\<open>new Date(x) - new Date(y)\<close>: the difference of the time values, \<open>NaN\<close> if one is.\<close>

fun date_minus :: "jsdate \<Rightarrow> jsdate \<Rightarrow> int option" where
  "date_minus (Instant x) (Instant y) = Some (x - y)"
| "date_minus _ _ = None"

definition sortTasksByRelevance :: "task \<Rightarrow> task \<Rightarrow> int option" where
  "sortTasksByRelevance a b =
    (let statusPriorityA = statusPriority a; statusPriorityB = statusPriority b
     in if statusPriorityA \<noteq> statusPriorityB then js_minus statusPriorityA statusPriorityB
        else
          (let priorityA = priorityRank a; priorityB = priorityRank b
           in if priorityA \<noteq> priorityB then js_minus priorityB priorityA
              else
                (case (dueDate a, dueDate b) of
                   (Some da, Some db) \<Rightarrow> date_minus da db
                 | _ \<Rightarrow> Some 0)))"

text \<open>
  \<open>new Date(x) < new Date(y)\<close>: a comparison of time values, false when one is \<open>NaN\<close>.
\<close>

fun date_less :: "jsdate \<Rightarrow> jsdate \<Rightarrow> bool" where
  "date_less (Instant x) (Instant y) = (x < y)"
| "date_less _ _ = False"

text \<open>
  \<open>calculateTaskStatistics(tasks)\<close>, at the instant \<open>today\<close> that \<open>new Date()\<close> reads.
  The result object is given with the fields that are counts of tasks and with the
  progress percentage; \<open>completedThisWeek\<close>, \<open>averageCompletionTime\<close> and
  \<open>weeklyTrend\<close>, which depend on local-time date arithmetic, are left out.
\<close>

record taskStatistics =
  total :: nat
  completed :: nat
  pending :: nat
  inProgress :: nat
  highPriority :: nat
  overdue :: nat
  overallProgress :: int

definition calculateTaskStatistics :: "task list \<Rightarrow> int \<Rightarrow> taskStatistics" where
  "calculateTaskStatistics tasks today =
    (let total' = length tasks;
         completed' = length (filter (\<lambda>t. status t = ''Completed'') tasks)
     in \<lparr>total = total',
         completed = completed',
         pending = length (filter (\<lambda>t. status t = ''Pending'') tasks),
         inProgress = length (filter (\<lambda>t. status t = ''In Progress'') tasks),
         highPriority =
           length (filter (\<lambda>t. priority t = ''High'' \<and> status t \<noteq> ''Completed'') tasks),
         overdue =
           length (filter (\<lambda>task.
             if status task = ''Completed'' then False
             else case dueDate task of
                    None \<Rightarrow> False
                  | Some d \<Rightarrow> date_less d (Instant today)) tasks),
         overallProgress =
           (if total' > 0
            then Math_round (js_times (js_divide (of_nat completed') (of_nat total')) 100)
            else 0)\<rparr>)"

section \<open>The task list page\<close>

text \<open>\<open>isTaskOverdue(task)\<close> at the instant \<open>now\<close>.\<close>

definition isTaskOverdue :: "task \<Rightarrow> int \<Rightarrow> bool" where
  "isTaskOverdue task now =
    (if dueDate task = None \<or> status task = ''Completed'' then False
     else case dueDate task of
            None \<Rightarrow> False
          | Some d \<Rightarrow> date_less d (Instant now))"

record activeFilters =
  search :: string
  category_f :: string
  priority_f :: string
  status_f :: string

text \<open>\<open>performSearch(searchTerm)\<close> stores the term, lower-cased and trimmed.\<close>

definition performSearch :: "string \<Rightarrow> activeFilters \<Rightarrow> activeFilters" where
  "performSearch searchTerm f = f\<lparr>search := trim (toLowerCase searchTerm)\<rparr>"

text \<open>
  The predicate of the \<open>filter\<close> call in \<open>searchTasks\<close>. An absent or empty optional
  field is falsy and is skipped.
\<close>

definition search_match :: "string \<Rightarrow> task \<Rightarrow> bool" where
  "search_match searchTerm task =
    (if str_includes (toLowerCase (title task)) searchTerm then True
     else if (case description task of
                None \<Rightarrow> False
              | Some d \<Rightarrow> d \<noteq> [] \<and> str_includes (toLowerCase d) searchTerm) then True
     else if str_includes (toLowerCase (category task)) searchTerm then True
     else if (case assignee task of
                None \<Rightarrow> False
              | Some a \<Rightarrow> a \<noteq> [] \<and> str_includes (toLowerCase a) searchTerm) then True
     else if (case tags task of
                None \<Rightarrow> False
              | Some ts \<Rightarrow> list_ex (\<lambda>tag. str_includes (toLowerCase tag) searchTerm) ts)
          then True
     else if str_includes (toLowerCase (task_id task)) searchTerm then True
     else if str_includes (toLowerCase (status task)) searchTerm then True
     else if str_includes (toLowerCase (priority task)) searchTerm then True
     else False)"

definition searchTasks :: "task list \<Rightarrow> activeFilters \<Rightarrow> task list" where
  "searchTasks allTasks f =
    (let searchTerm = search f
     in if searchTerm = [] then allTasks
        else filter (search_match searchTerm) allTasks)"

text \<open>
  The stub \<open>sortTasksByField\<close> returns 0 for every pair. It is a consistent comparator of
  any list, so the built-in sort has one result, which \<open>array_sort\<close> computes
  (\<open>sort_contract_sortTasksByField\<close> below).
\<close>

definition sortTasksByField :: "string \<Rightarrow> string \<Rightarrow> task \<Rightarrow> task \<Rightarrow> int option" where
  "sortTasksByField field direction a b = Some 0"

text \<open>
  \<open>applyFiltersAndSorting()\<close>: the list it stores in \<open>tasksState.filteredTasks\<close>, for
  the sort field and direction of \<open>tasksState.currentSort\<close>. (The page count and the
  current page, which it recomputes from the length of this list, are left out.)
\<close>

definition applyFiltersAndSorting ::
  "task list \<Rightarrow> activeFilters \<Rightarrow> string \<Rightarrow> string \<Rightarrow> task list" where
  "applyFiltersAndSorting allTasks f field direction =
    (let filtered = searchTasks allTasks f;
         filtered =
           (if category_f f \<noteq> ''all''
            then filter (\<lambda>task. toLowerCase (category task) = toLowerCase (category_f f))
                   filtered
            else filtered);
         filtered =
           (if priority_f f \<noteq> ''all''
            then filter (\<lambda>task. toLowerCase (priority task) = toLowerCase (priority_f f))
                   filtered
            else filtered);
         filtered =
           (if status_f f \<noteq> ''all''
            then filter (\<lambda>task.
                   replace_char CHR '' '' CHR ''-'' (toLowerCase (status task))
                     = toLowerCase (status_f f)) filtered
            else filtered)
     in array_sort (sortTasksByField field direction) filtered)"

section \<open>The profile page\<close>

text \<open>
  \<open>calculateDetailedStatistics(tasks)\<close>, at the instant \<open>now\<close>: the counts of tasks by
  status, the overdue count and the completion rate. The other fields (hours, periods,
  breakdowns, placeholders that return random numbers) are left out.
\<close>

record detailedStatistics =
  totalTasks :: nat
  completedTasks :: nat
  pendingTasks :: nat
  inProgressTasks :: nat
  overdueTasks :: nat
  completionRate :: int

definition calculateDetailedStatistics :: "task list \<Rightarrow> int \<Rightarrow> detailedStatistics" where
  "calculateDetailedStatistics tasks now =
    (let totalTasks' = length tasks;
         completedTasks' = length (filter (\<lambda>task. status task = ''Completed'') tasks)
     in \<lparr>totalTasks = totalTasks',
         completedTasks = completedTasks',
         pendingTasks = length (filter (\<lambda>task. status task = ''Pending'') tasks),
         inProgressTasks = length (filter (\<lambda>task. status task = ''In Progress'') tasks),
         overdueTasks =
           length (filter (\<lambda>task.
             status task \<noteq> ''Completed''
             \<and> (case dueDate task of
                   None \<Rightarrow> False
                 | Some d \<Rightarrow> date_less d (Instant now))) tasks),
         completionRate =
           (if totalTasks' > 0
            then Math_round
                   (js_times (js_divide (of_nat completedTasks') (of_nat totalTasks')) 100)
            else 0)\<rparr>)"

section \<open>The specification's wording of two queries\<close>

text \<open>
  The specification's overdue count compares dates only: the calendar day (here the day
  number in UTC) of the due date with the calendar day of the current instant.
\<close>

definition calendar_day :: "int \<Rightarrow> int" where
  "calendar_day ms = ms div 86400000"

definition spec_overdue :: "task list \<Rightarrow> int \<Rightarrow> nat" where
  "spec_overdue tasks now =
    length (filter (\<lambda>task.
      status task \<noteq> ''Completed''
      \<and> (case dueDate task of
            Some (Instant d) \<Rightarrow> calendar_day d < calendar_day now
          | _ \<Rightarrow> False)) tasks)"

text \<open>
  The specification's search: a task matches when one of its fields title, description,
  category, assignee, tags, identifier, status, priority contains the term as a
  case-insensitive substring.
\<close>

definition contains_ci :: "string \<Rightarrow> string \<Rightarrow> bool" where
  "contains_ci field s = str_includes (toLowerCase field) (toLowerCase s)"

definition spec_search_match :: "string \<Rightarrow> task \<Rightarrow> bool" where
  "spec_search_match s task =
    (contains_ci (title task) s
     \<or> (case description task of None \<Rightarrow> False | Some d \<Rightarrow> contains_ci d s)
     \<or> contains_ci (category task) s
     \<or> (case assignee task of None \<Rightarrow> False | Some a \<Rightarrow> contains_ci a s)
     \<or> (case tags task of None \<Rightarrow> False | Some ts \<Rightarrow> list_ex (\<lambda>tag. contains_ci tag s) ts)
     \<or> contains_ci (task_id task) s
     \<or> contains_ci (status task) s
     \<or> contains_ci (priority task) s)"

text \<open>
  The specification's completion rate: \<open>round(completed / total * 100)\<close> in exact
  arithmetic, a half rounded up, and 0 when the total is 0.
\<close>

definition spec_completionRate :: "nat \<Rightarrow> nat \<Rightarrow> int" where
  "spec_completionRate completed' total' =
    (if total' = 0 then 0
     else \<lfloor>(of_nat completed' / of_nat total' * 100 + 1 / 2 :: rat)\<rfloor>)"




section \<open>Properties of authentication\<close>

lemma find_DEMO_USERS_unknown:
  "email' \<notin> set (map email DEMO_USERS) \<Longrightarrow> find (\<lambda>u. email u = email') DEMO_USERS = None"
  by (auto simp: find_None_iff)

lemma find_DEMO_USERS_known:
  assumes "u \<in> set DEMO_USERS"
  shows "find (\<lambda>v. email v = email u) DEMO_USERS = Some u"
proof -
  from assms consider "u = DEMO_USERS ! 0" | "u = DEMO_USERS ! 1" | "u = DEMO_USERS ! 2"
    unfolding DEMO_USERS_def by fastforce
  then show ?thesis
  proof cases
    case 1 then show ?thesis by (simp add: DEMO_USERS_def)
  next
    case 2 then show ?thesis by (simp add: DEMO_USERS_def)
  next
    case 3 then show ?thesis by (simp add: DEMO_USERS_def)
  qed
qed

text \<open>
  Claim C8. A login with an email that no demo user has, and a login with the email of a
  demo user and another password than that user's, both fail, and the two results are the
  same value: the same \<open>success: false\<close> object with the same message.
\<close>

theorem C8_same_failure:
  assumes "email' \<notin> set (map email DEMO_USERS)"
    and "u \<in> set DEMO_USERS" and "password' \<noteq> password u"
  shows "authenticateUser email' anyPassword =
           Inl ''Invalid email or password. Please check your credentials and try again.''
       \<and> authenticateUser (email u) password' =
           Inl ''Invalid email or password. Please check your credentials and try again.''
       \<and> authenticateUser email' anyPassword = authenticateUser (email u) password'"
  using assms
  by (simp add: authenticateUser_def find_DEMO_USERS_unknown find_DEMO_USERS_known)

theorem C8_same_failure_witness:
  "authenticateUser ''nobody@nowhere.org'' ''password123'' =
     Inl ''Invalid email or password. Please check your credentials and try again.''
   \<and> authenticateUser ''john@university.edu'' ''password123'' =
     Inl ''Invalid email or password. Please check your credentials and try again.''
   \<and> authenticateUser ''nobody@nowhere.org'' ''password123'' =
     authenticateUser ''john@university.edu'' ''password123''"
proof -
  have unknown: "''nobody@nowhere.org'' \<notin> set (map email DEMO_USERS)"
    by (simp add: DEMO_USERS_def)
  have known: "DEMO_USERS ! 2 \<in> set DEMO_USERS"
    by (simp add: DEMO_USERS_def)
  have other: "''password123'' \<noteq> password (DEMO_USERS ! 2)"
    by (simp add: DEMO_USERS_def)
  have mail: "email (DEMO_USERS ! 2) = ''john@university.edu''"
    by (simp add: DEMO_USERS_def)
  show ?thesis
    using C8_same_failure [OF unknown known other, of "''password123''"]
    by (simp only: mail)
qed

section \<open>Properties of registration and login\<close>

text \<open>
  Claim C10. \<open>authenticateUser\<close> looks the email up in \<open>DEMO_USERS\<close> only (it takes no
  store). When \<open>registerNewUser\<close> succeeds it appends the new user to the collection stored
  under \<open>crudzaso_users\<close>; if the email is not one of the three demo emails, logging in
  with the email and password just registered fails with the invalid-credentials message.
\<close>

theorem C10_registered_user_cannot_login:
  assumes reg: "registerNewUser ls ud newId today nowIso = (Inr (Inr usr), ls')"
    and notdemo: "email ud \<notin> set (map email DEMO_USERS)"
  shows "email usr = email ud \<and> password usr = password ud
       \<and> (\<exists>us. parse_users ls = Inr us
              \<and> ls' = setItem ''crudzaso_users'' (UsersJson (us @ [usr])) ls)
       \<and> authenticateUser (email usr) (password usr) =
           Inl ''Invalid email or password. Please check your credentials and try again.''"
proof -
  from reg obtain us where us: "parse_users ls = Inr us"
    by (cases "parse_users ls")
       (auto simp: registerNewUser_def isEmailAlreadyRegistered_def)
  from reg us have usr: "usr = \<lparr>name = name ud, email = email ud, password = password ud,
                user_id = newId, role = ''Student'', department = ''General'',
                joinDate = today, registrationDate = Some nowIso\<rparr>"
    and ls': "ls' = setItem ''crudzaso_users'' (UsersJson (us @ [usr])) ls"
    by (auto simp: registerNewUser_def isEmailAlreadyRegistered_def saveUserToDatabase_def
          Let_def split: if_splits bool.splits)
  from usr have mail: "email usr = email ud" and pw: "password usr = password ud"
    by simp_all
  from find_DEMO_USERS_unknown [OF notdemo] mail
  have "find (\<lambda>u. email u = email usr) DEMO_USERS = None"
    by simp
  then have "authenticateUser (email usr) (password usr) =
           Inl ''Invalid email or password. Please check your credentials and try again.''"
    by (simp add: authenticateUser_def)
  with mail pw us ls' show ?thesis by blast
qed

theorem C10_registered_user_cannot_login_witness:
  "registerNewUser Map.empty
      \<lparr>name = ''Ann Lee'', email = ''ann@example.org'', password = ''Secret123'',
       confirmPassword = ''Secret123''\<rparr>
      (IdStr ''1700000000000k3j9x2m1q'') ''2024-05-01'' ''2024-05-01T08:00:00.000Z''
    = (Inr (Inr \<lparr>name = ''Ann Lee'', email = ''ann@example.org'', password = ''Secret123'',
                 user_id = IdStr ''1700000000000k3j9x2m1q'', role = ''Student'',
                 department = ''General'', joinDate = ''2024-05-01'',
                 registrationDate = Some ''2024-05-01T08:00:00.000Z''\<rparr>),
       [''crudzaso_users'' \<mapsto> UsersJson
         [\<lparr>name = ''Ann Lee'', email = ''ann@example.org'', password = ''Secret123'',
           user_id = IdStr ''1700000000000k3j9x2m1q'', role = ''Student'',
           department = ''General'', joinDate = ''2024-05-01'',
           registrationDate = Some ''2024-05-01T08:00:00.000Z''\<rparr>]])
   \<and> authenticateUser ''ann@example.org'' ''Secret123'' =
       Inl ''Invalid email or password. Please check your credentials and try again.''"
proof -
  let ?ud = "\<lparr>name = ''Ann Lee'', email = ''ann@example.org'', password = ''Secret123'',
       confirmPassword = ''Secret123''\<rparr>"
  let ?usr = "\<lparr>name = ''Ann Lee'', email = ''ann@example.org'', password = ''Secret123'',
                 user_id = IdStr ''1700000000000k3j9x2m1q'', role = ''Student'',
                 department = ''General'', joinDate = ''2024-05-01'',
                 registrationDate = Some ''2024-05-01T08:00:00.000Z''\<rparr>"
  have reg: "registerNewUser Map.empty ?ud
      (IdStr ''1700000000000k3j9x2m1q'') ''2024-05-01'' ''2024-05-01T08:00:00.000Z''
    = (Inr (Inr ?usr), [''crudzaso_users'' \<mapsto> UsersJson [?usr]])"
    by (simp add: registerNewUser_def isEmailAlreadyRegistered_def parse_users_def
          saveUserToDatabase_def setItem_def Let_def)
  have notdemo: "email ?ud \<notin> set (map email DEMO_USERS)"
    by (simp add: DEMO_USERS_def)
  from C10_registered_user_cannot_login [OF reg notdemo] reg show ?thesis
    by simp
qed

section \<open>Properties of saving a task\<close>

lemma draftKey_not_tasks:
  "''crudzaso_task_draft_'' @ i \<noteq> ''crudzaso_tasks''"
  "''crudzaso_new_task_draft'' \<noteq> ''crudzaso_tasks''"
  by simp_all

lemma findIndex_Some:
  "findIndex P xs = Some k \<Longrightarrow> k < length xs \<and> P (xs ! k)"
proof (induction xs arbitrary: k)
  case Nil
  then show ?case by simp
next
  case (Cons x xs)
  then show ?case by (auto split: if_splits)
qed

lemma findIndex_None: "findIndex P xs = None \<longleftrightarrow> (\<forall>x\<in>set xs. \<not> P x)"
  by (induction xs) auto

lemma saveTaskToStorage_not_found:
  assumes "isEditing st" and "parse_tasks ls = Inr ts"
    and "findIndex (\<lambda>t. Some (task_id t) = editingTaskId st) ts = None"
  shows "saveTaskToStorage st taskData ls = (Inl (Error ''Task not found for editing''), ls)"
  using assms by (simp add: saveTaskToStorage_def)

text \<open>
  Claim C7. In edit mode, when no task of the stored collection has the identifier being
  edited, \<open>saveTaskToStorage\<close> throws the error \<open>Task not found for editing\<close> and the store
  is the one it started from; \<open>saveTask\<close> then returns \<open>false\<close>, also with the store
  unchanged.
\<close>

theorem C7_update_absent_id_fails:
  assumes edit: "isEditing st" and eid: "editingTaskId st = Some i"
    and stored: "parse_tasks ls = Inr ts"
    and absent: "i \<notin> set (map task_id ts)"
  shows "saveTaskToStorage st taskData ls = (Inl (Error ''Task not found for editing''), ls)
       \<and> saveTask st formValid form newId now1 now2 uid ls = (False, ls)"
proof -
  from absent eid have "findIndex (\<lambda>t. Some (task_id t) = editingTaskId st) ts = None"
    by (auto simp: findIndex_None)
  with edit stored have
    "saveTaskToStorage st t ls = (Inl (Error ''Task not found for editing''), ls)" for t
    by (rule saveTaskToStorage_not_found)
  then show ?thesis
    by (simp add: saveTask_def Let_def)
qed

theorem C7_update_absent_id_fails_witness:
  "saveTaskToStorage
      \<lparr>isEditing = True, editingTaskId = Some ''task_9'', currentTask = Map.empty\<rparr>
      \<lparr>title = ''Essay'', description = None, category = ''History'', priority = ''Low'',
       status = ''Pending'', dueDate = None, estimatedHours = None, assignee = None,
       tags = None, difficulty = None, task_id = ''task_9'', createdAt = None,
       updatedAt = Some ''2024-05-01T08:00:00.000Z'', userId = Some (IdNum 1)\<rparr>
      [''crudzaso_tasks'' \<mapsto> TasksJson
        [\<lparr>title = ''Lab Report'', description = None, category = ''Physics'',
          priority = ''Medium'', status = ''Pending'', dueDate = None,
          estimatedHours = None, assignee = None, tags = None, difficulty = None,
          task_id = ''task_2'', createdAt = None, updatedAt = None, userId = None\<rparr>]]
    = (Inl (Error ''Task not found for editing''),
       [''crudzaso_tasks'' \<mapsto> TasksJson
        [\<lparr>title = ''Lab Report'', description = None, category = ''Physics'',
          priority = ''Medium'', status = ''Pending'', dueDate = None,
          estimatedHours = None, assignee = None, tags = None, difficulty = None,
          task_id = ''task_2'', createdAt = None, updatedAt = None, userId = None\<rparr>]])
   \<and> saveTask
      \<lparr>isEditing = True, editingTaskId = Some ''task_9'', currentTask = Map.empty\<rparr>
      True
      \<lparr>title = ''Essay'', description = None, category = ''History'', priority = ''Low'',
       status = ''Pending'', dueDate = None, estimatedHours = None, assignee = None,
       tags = None, difficulty = None\<rparr>
      ''task_new'' ''2024-05-01T08:00:00.000Z'' ''2024-05-01T08:00:00.001Z'' (IdNum 1)
      [''crudzaso_tasks'' \<mapsto> TasksJson
        [\<lparr>title = ''Lab Report'', description = None, category = ''Physics'',
          priority = ''Medium'', status = ''Pending'', dueDate = None,
          estimatedHours = None, assignee = None, tags = None, difficulty = None,
          task_id = ''task_2'', createdAt = None, updatedAt = None, userId = None\<rparr>]]
    = (False,
       [''crudzaso_tasks'' \<mapsto> TasksJson
        [\<lparr>title = ''Lab Report'', description = None, category = ''Physics'',
          priority = ''Medium'', status = ''Pending'', dueDate = None,
          estimatedHours = None, assignee = None, tags = None, difficulty = None,
          task_id = ''task_2'', createdAt = None, updatedAt = None, userId = None\<rparr>]])"
proof -
  let ?st = "\<lparr>isEditing = True, editingTaskId = Some ''task_9'', currentTask = Map.empty\<rparr>"
  let ?t2 = "\<lparr>title = ''Lab Report'', description = None, category = ''Physics'',
          priority = ''Medium'', status = ''Pending'', dueDate = None,
          estimatedHours = None, assignee = None, tags = None, difficulty = None,
          task_id = ''task_2'', createdAt = None, updatedAt = None, userId = None\<rparr>"
  let ?ls = "[''crudzaso_tasks'' \<mapsto> TasksJson [?t2]]"
  have edit: "isEditing ?st" by simp
  have eid: "editingTaskId ?st = Some ''task_9''" by simp
  have stored: "parse_tasks ?ls = Inr [?t2]" by (simp add: parse_tasks_def)
  have absent: "''task_9'' \<notin> set (map task_id [?t2])" by simp
  show ?thesis
    by (rule C7_update_absent_id_fails [OF edit eid stored absent])
qed

lemma parse_tasks_setItem:
  "parse_tasks (setItem ''crudzaso_tasks'' (TasksJson ts) ls) = Inr ts"
  by (simp add: parse_tasks_def setItem_def)

lemma parse_tasks_clearDraft: "parse_tasks (clearDraft st ls) = parse_tasks ls"
  by (simp add: parse_tasks_def clearDraft_def removeItem_def Let_def)

text \<open>
  Claim C6, as the code has it. Editing a stored task replaces it, at its position, by a
  record with the same identifier, with the second clock reading as updated timestamp,
  and with the current user as owner; the rest of the collection is untouched. The owner
  is therefore unchanged exactly when the task already belonged to the current user.
  (The created timestamp is read from \<open>taskFormState.currentTask\<close>, which
  \<open>loadTaskForEditing\<close> never fills; nothing is said about it here.)
\<close>

theorem C6_edit_keeps_id_sets_owner:
  assumes edit: "isEditing st" and eid: "editingTaskId st = Some i"
    and stored: "parse_tasks ls = Inr ts"
    and present: "findIndex (\<lambda>t. task_id t = i) ts = Some k"
  shows "fst (saveTask st True taskData newId now1 now2 uid ls) = True
       \<and> (\<exists>new. parse_tasks (snd (saveTask st True taskData newId now1 now2 uid ls))
               = Inr (ts[k := new])
           \<and> k < length ts
           \<and> task_id new = task_id (ts ! k)
           \<and> updatedAt new = Some now2
           \<and> userId new = Some uid
           \<and> (userId new = userId (ts ! k) \<longleftrightarrow> userId (ts ! k) = Some uid))"
proof -
  let ?new = "\<lparr>title = title taskData, description = description taskData,
           category = category taskData, priority = priority taskData,
           status = status taskData, dueDate = dueDate taskData,
           estimatedHours = estimatedHours taskData, assignee = assignee taskData,
           tags = tags taskData, difficulty = difficulty taskData,
           task_id = i, createdAt = currentTask st ''createdAt'',
           updatedAt = Some now2, userId = Some uid\<rparr>"
  from present have k: "k < length ts" and idk: "task_id (ts ! k) = i"
    using findIndex_Some [of "\<lambda>t. task_id t = i" ts k] by simp_all
  from present eid have idx: "findIndex (\<lambda>t. Some (task_id t) = editingTaskId st) ts = Some k"
    by simp
  from edit stored idx have sts: "saveTaskToStorage st ?new ls =
      (Inr (), setItem ''crudzaso_tasks'' (TasksJson (ts[k := ?new])) ls)"
    by (simp add: saveTaskToStorage_def)
  from edit eid sts have sv: "saveTask st True taskData newId now1 now2 uid ls =
      (True, clearDraft st (setItem ''crudzaso_tasks'' (TasksJson (ts[k := ?new])) ls))"
    by (simp add: saveTask_def Let_def)
  have "fst (saveTask st True taskData newId now1 now2 uid ls) = True"
    by (simp add: sv)
  moreover have "parse_tasks (snd (saveTask st True taskData newId now1 now2 uid ls))
               = Inr (ts[k := ?new])"
    by (simp add: sv parse_tasks_clearDraft parse_tasks_setItem)
  moreover have "task_id ?new = task_id (ts ! k)" by (simp add: idk)
  moreover have "updatedAt ?new = Some now2" by simp
  moreover have "userId ?new = Some uid" by simp
  moreover have "userId ?new = userId (ts ! k) \<longleftrightarrow> userId (ts ! k) = Some uid" by auto
  ultimately show ?thesis using k by blast
qed

theorem C6_edit_keeps_id_sets_owner_witness:
  "fst (saveTask
          \<lparr>isEditing = True, editingTaskId = Some ''task_2'', currentTask = Map.empty\<rparr>
          True
          \<lparr>title = ''Physics Lab Report'', description = Some ''Document findings.'',
           category = ''Physics'', priority = ''High'', status = ''In Progress'',
           dueDate = Some (Instant 1710892800000), estimatedHours = Some 1,
           assignee = Some ''Michelle O.'', tags = Some [], difficulty = Some ''Medium''\<rparr>
          ''task_new'' ''2024-03-11T09:00:00.000Z'' ''2024-03-11T09:00:00.002Z'' (IdNum 3)
          [''crudzaso_tasks'' \<mapsto> TasksJson
            [\<lparr>title = ''Quarter 3 Report'', description = None, category = ''Mathematics'',
              priority = ''High'', status = ''In Progress'', dueDate = None,
              estimatedHours = None, assignee = Some ''Sarah Lin'', tags = None,
              difficulty = None, task_id = ''task_1'',
              createdAt = Some ''2024-03-01T10:00:00Z'',
              updatedAt = Some ''2024-03-10T14:30:00Z'', userId = Some (IdNum 3)\<rparr>,
             \<lparr>title = ''Physics Lab Report'', description = None, category = ''Physics'',
              priority = ''Medium'', status = ''Pending'', dueDate = None,
              estimatedHours = None, assignee = Some ''Michelle O.'', tags = None,
              difficulty = None, task_id = ''task_2'',
              createdAt = Some ''2024-03-05T09:15:00Z'',
              updatedAt = Some ''2024-03-05T09:15:00Z'', userId = Some (IdNum 3)\<rparr>]])
        = True
   \<and> (\<exists>new::task. task_id new = ''task_2''
     \<and> updatedAt new = Some ''2024-03-11T09:00:00.002Z''
     \<and> userId new = Some (IdNum 3))"
proof -
  let ?st = "\<lparr>isEditing = True, editingTaskId = Some ''task_2'', currentTask = Map.empty\<rparr>"
  let ?t1 = "\<lparr>title = ''Quarter 3 Report'', description = None, category = ''Mathematics'',
              priority = ''High'', status = ''In Progress'', dueDate = None,
              estimatedHours = None, assignee = Some ''Sarah Lin'', tags = None,
              difficulty = None, task_id = ''task_1'',
              createdAt = Some ''2024-03-01T10:00:00Z'',
              updatedAt = Some ''2024-03-10T14:30:00Z'', userId = Some (IdNum 3)\<rparr>"
  let ?t2 = "\<lparr>title = ''Physics Lab Report'', description = None, category = ''Physics'',
              priority = ''Medium'', status = ''Pending'', dueDate = None,
              estimatedHours = None, assignee = Some ''Michelle O.'', tags = None,
              difficulty = None, task_id = ''task_2'',
              createdAt = Some ''2024-03-05T09:15:00Z'',
              updatedAt = Some ''2024-03-05T09:15:00Z'', userId = Some (IdNum 3)\<rparr>"
  let ?ls = "[''crudzaso_tasks'' \<mapsto> TasksJson [?t1, ?t2]]"
  have edit: "isEditing ?st" by simp
  have eid: "editingTaskId ?st = Some ''task_2''" by simp
  have stored: "parse_tasks ?ls = Inr [?t1, ?t2]" by (simp add: parse_tasks_def)
  have present: "findIndex (\<lambda>t. task_id t = ''task_2'') [?t1, ?t2] = Some 1" by simp
  let ?form = "\<lparr>title = ''Physics Lab Report'', description = Some ''Document findings.'',
           category = ''Physics'', priority = ''High'', status = ''In Progress'',
           dueDate = Some (Instant 1710892800000), estimatedHours = Some 1,
           assignee = Some ''Michelle O.'', tags = Some [], difficulty = Some ''Medium''\<rparr>"
  note inst = C6_edit_keeps_id_sets_owner [OF edit eid stored present,
      where taskData = ?form and newId = "''task_new''"
        and ?now1.0 = "''2024-03-11T09:00:00.000Z''"
        and ?now2.0 = "''2024-03-11T09:00:00.002Z''" and uid = "IdNum 3"]
  from inst have saved:
    "fst (saveTask ?st True ?form ''task_new'' ''2024-03-11T09:00:00.000Z''
       ''2024-03-11T09:00:00.002Z'' (IdNum 3) ?ls) = True"
    by (rule conjunct1)
  have second: "task_id ([?t1, ?t2] ! 1) = ''task_2''" by simp
  from inst [THEN conjunct2]
  have "\<exists>new::task. task_id new = ''task_2''
     \<and> updatedAt new = Some ''2024-03-11T09:00:00.002Z''
     \<and> userId new = Some (IdNum 3)"
  proof (elim exE conjE)
    fix new :: task
    assume "task_id new = task_id ([?t1, ?t2] ! 1)"
      and "updatedAt new = Some ''2024-03-11T09:00:00.002Z''"
      and "userId new = Some (IdNum 3)"
    then have "task_id new = ''task_2''
       \<and> updatedAt new = Some ''2024-03-11T09:00:00.002Z''
       \<and> userId new = Some (IdNum 3)"
      by (simp only: second simp_thms)
    then show ?thesis by (rule exI [where x = new])
  qed
  with saved show ?thesis by (rule conjI)
qed

text \<open>
  The claim as stated fails: user 1 edits a stored task that has no owner (the dashboard's
  sample tasks have none) in the form state that the page builds, where \<open>currentTask\<close> is
  \<open>{}\<close>. The identifier stays, the created timestamp is lost and the owner changes.
\<close>

theorem C6_counterexample:
  "parse_tasks (snd (saveTask
      \<lparr>isEditing = True, editingTaskId = Some ''task_1'', currentTask = Map.empty\<rparr>
      True
      \<lparr>title = ''Quarter 3 Report'', description = Some ''Finish the report.'',
       category = ''Mathematics'', priority = ''High'', status = ''Completed'',
       dueDate = None, estimatedHours = Some 1, assignee = Some ''Sarah Lin'',
       tags = Some [], difficulty = Some ''Medium''\<rparr>
      ''task_new'' ''2024-03-11T09:00:00.000Z'' ''2024-03-11T09:00:00.002Z'' (IdNum 1)
      [''crudzaso_tasks'' \<mapsto> TasksJson
        [\<lparr>title = ''Quarter 3 Report'', description = None, category = ''Mathematics'',
          priority = ''High'', status = ''In Progress'', dueDate = None,
          estimatedHours = None, assignee = Some ''Sarah Lin'', tags = None,
          difficulty = None, task_id = ''task_1'',
          createdAt = Some ''2024-03-01T10:00:00Z'',
          updatedAt = Some ''2024-03-10T14:30:00Z'', userId = None\<rparr>]]))
   = Inr [\<lparr>title = ''Quarter 3 Report'', description = Some ''Finish the report.'',
           category = ''Mathematics'', priority = ''High'', status = ''Completed'',
           dueDate = None, estimatedHours = Some 1, assignee = Some ''Sarah Lin'',
           tags = Some [], difficulty = Some ''Medium'', task_id = ''task_1'',
           createdAt = None, updatedAt = Some ''2024-03-11T09:00:00.002Z'',
           userId = Some (IdNum 1)\<rparr>]"
  by (simp add: saveTask_def saveTaskToStorage_def parse_tasks_def setItem_def
        clearDraft_def removeItem_def Let_def)

section \<open>Properties of the session checks\<close>

lemma checkExistingSession_valid_iff:
  assumes "ls ''crudzaso_user_session'' = Some (SessionJson s)"
    and "expires s = Some (Instant e)"
  shows "fst (checkExistingSession now ls) \<longleftrightarrow> now < e"
    and "\<not> now < e \<Longrightarrow> snd (checkExistingSession now ls) = clearSession ls"
  using assms by (simp_all add: checkExistingSession_def)

lemma checkExistingSession_malformed:
  assumes "ls ''crudzaso_user_session'' = Some Unparseable"
  shows "checkExistingSession now ls = (False, clearSession ls)"
  using assms by (simp add: checkExistingSession_def)

lemma verifyUserAuthentication_refuses_iff:
  assumes "ls ''crudzaso_user_session'' = Some (SessionJson s)"
    and "expires s = Some (Instant e)"
  shows "fst (verifyUserAuthentication now ls) \<longleftrightarrow> now \<le> e"
  using assms by (auto simp: verifyUserAuthentication_def)

lemma clearSession_removes: "clearSession ls ''crudzaso_user_session'' = None"
  by (simp add: clearSession_def removeItem_def)

text \<open>
  Claim C9 at the instant of expiry. A session whose \<open>expires\<close> is the current instant is
  not strictly before its expiry. The login page refuses it and clears it; the dashboard
  accepts it and leaves it in the store.
\<close>

theorem C9_dashboard_accepts_at_expiry:
  "checkExistingSession 1710000000000
      [''crudzaso_user_session'' \<mapsto> SessionJson
        \<lparr>userId_s = IdNum 1, email_s = ''student@university.edu'', name_s = ''Alex Morgan'',
         role_s = ''Product Designer'', department_s = ''Computer Science'',
         loginTime = ''2024-03-08T16:00:00.000Z'',
         expires = Some (Instant 1710000000000)\<rparr>]
    = (False, Map.empty)
   \<and> verifyUserAuthentication 1710000000000
      [''crudzaso_user_session'' \<mapsto> SessionJson
        \<lparr>userId_s = IdNum 1, email_s = ''student@university.edu'', name_s = ''Alex Morgan'',
         role_s = ''Product Designer'', department_s = ''Computer Science'',
         loginTime = ''2024-03-08T16:00:00.000Z'',
         expires = Some (Instant 1710000000000)\<rparr>]
    = (True,
       [''crudzaso_user_session'' \<mapsto> SessionJson
        \<lparr>userId_s = IdNum 1, email_s = ''student@university.edu'', name_s = ''Alex Morgan'',
         role_s = ''Product Designer'', department_s = ''Computer Science'',
         loginTime = ''2024-03-08T16:00:00.000Z'',
         expires = Some (Instant 1710000000000)\<rparr>])"
  by (simp add: checkExistingSession_def verifyUserAuthentication_def clearSession_def
        removeItem_def)

section \<open>Properties of the overdue counts\<close>

lemma date_less_Instant:
  "date_less d (Instant now) \<longleftrightarrow> (\<exists>x. d = Instant x \<and> x < now)"
  by (cases d) simp_all

text \<open>
  The three overdue tests (dashboard statistics, task list, profile statistics) agree, and
  each counts the tasks that are not completed and whose due date is a valid date with a
  time value strictly below the current instant: they compare instants, with the time of
  day.
\<close>

lemma overdue_compares_instants:
  "overdue (calculateTaskStatistics tasks now) =
     length (filter (\<lambda>t. status t \<noteq> ''Completed''
                          \<and> (\<exists>d. dueDate t = Some (Instant d) \<and> d < now)) tasks)
   \<and> overdue (calculateTaskStatistics tasks now)
       = length (filter (\<lambda>t. isTaskOverdue t now) tasks)
   \<and> overdueTasks (calculateDetailedStatistics tasks now)
       = overdue (calculateTaskStatistics tasks now)"
proof -
  have a: "(if status t = ''Completed'' then False
            else case dueDate t of None \<Rightarrow> False | Some d \<Rightarrow> date_less d (Instant now))
         = (status t \<noteq> ''Completed'' \<and> (\<exists>d. dueDate t = Some (Instant d) \<and> d < now))"
    for t :: task
    by (cases "dueDate t") (auto simp: date_less_Instant)
  have b: "isTaskOverdue t now
         = (status t \<noteq> ''Completed'' \<and> (\<exists>d. dueDate t = Some (Instant d) \<and> d < now))"
    for t
    by (cases "dueDate t") (auto simp: isTaskOverdue_def date_less_Instant)
  have c: "(status t \<noteq> ''Completed''
            \<and> (case dueDate t of None \<Rightarrow> False | Some d \<Rightarrow> date_less d (Instant now)))
         = (status t \<noteq> ''Completed'' \<and> (\<exists>d. dueDate t = Some (Instant d) \<and> d < now))"
    for t :: task
    by (cases "dueDate t") (auto simp: date_less_Instant)
  show ?thesis
    unfolding calculateTaskStatistics_def calculateDetailedStatistics_def Let_def
    by (simp add: a b c)
qed

text \<open>
  Claim C3, at a task that is due today. The claim compares dates only, and so does the
  code wherever it shows or checks a due date: \<open>calculateDaysRemaining\<close> sets both dates to
  midnight and writes \<open>Due today\<close> on the card of such a task, \<open>formatDate\<close> compares
  ``only dates, not hours'', and the form accepts today as a due date. The overdue tests
  do not: a pending task is due on 2024-03-15 (the stored string \<open>2024-03-15\<close> is the
  instant 1710460800000, midnight UTC) and the clock reads noon of the same day; by the
  date-only rule the task is not overdue, and the code counts it as overdue.
\<close>

theorem C3_due_today_counted_overdue:
  "spec_overdue
     [\<lparr>title = ''Quarter 3 Report'', description = None, category = ''Mathematics'',
       priority = ''High'', status = ''Pending'', dueDate = Some (Instant 1710460800000),
       estimatedHours = None, assignee = None, tags = None, difficulty = None,
       task_id = ''task_1'', createdAt = None, updatedAt = None, userId = None\<rparr>]
     1710504000000 = 0
   \<and> overdue (calculateTaskStatistics
     [\<lparr>title = ''Quarter 3 Report'', description = None, category = ''Mathematics'',
       priority = ''High'', status = ''Pending'', dueDate = Some (Instant 1710460800000),
       estimatedHours = None, assignee = None, tags = None, difficulty = None,
       task_id = ''task_1'', createdAt = None, updatedAt = None, userId = None\<rparr>]
     1710504000000) = 1
   \<and> isTaskOverdue
     \<lparr>title = ''Quarter 3 Report'', description = None, category = ''Mathematics'',
       priority = ''High'', status = ''Pending'', dueDate = Some (Instant 1710460800000),
       estimatedHours = None, assignee = None, tags = None, difficulty = None,
       task_id = ''task_1'', createdAt = None, updatedAt = None, userId = None\<rparr>
     1710504000000
   \<and> overdueTasks (calculateDetailedStatistics
     [\<lparr>title = ''Quarter 3 Report'', description = None, category = ''Mathematics'',
       priority = ''High'', status = ''Pending'', dueDate = Some (Instant 1710460800000),
       estimatedHours = None, assignee = None, tags = None, difficulty = None,
       task_id = ''task_1'', createdAt = None, updatedAt = None, userId = None\<rparr>]
     1710504000000) = 1"
  by (simp add: spec_overdue_def calculateTaskStatistics_def isTaskOverdue_def
        calculateDetailedStatistics_def calendar_day_def Let_def)

section \<open>Properties of sorting\<close>

subsection \<open>Insertion sort, for any comparator\<close>

lemma mset_sort_insert: "mset (sort_insert c x ys) = add_mset x (mset ys)"
  by (induction ys) simp_all

lemma mset_array_sort: "mset (array_sort c xs) = mset xs"
  by (induction xs) (simp_all add: mset_sort_insert)

lemma set_sort_insert: "set (sort_insert c x ys) = insert x (set ys)"
  using mset_sort_insert [of c x ys, THEN arg_cong, of set_mset] by simp

lemma set_array_sort: "set (array_sort c xs) = set xs"
  using mset_array_sort [of c xs, THEN arg_cong, of set_mset] by simp

text \<open>
  Inserting keeps a list ordered by a relation \<open>R\<close> that the comparator decides on the
  elements at hand: a result \<open>\<le> 0\<close> means \<open>R x y\<close>, a result \<open>> 0\<close> means \<open>R y x\<close>, and
  \<open>R\<close> is transitive there.
\<close>

lemma sorted_wrt_sort_insert:
  assumes le: "\<And>u v. u \<in> S \<Longrightarrow> v \<in> S \<Longrightarrow> SortCompare c u v \<le> 0 \<Longrightarrow> R u v"
    and gt: "\<And>u v. u \<in> S \<Longrightarrow> v \<in> S \<Longrightarrow> 0 < SortCompare c u v \<Longrightarrow> R v u"
    and trans: "\<And>u v w. u \<in> S \<Longrightarrow> v \<in> S \<Longrightarrow> w \<in> S \<Longrightarrow> R u v \<Longrightarrow> R v w \<Longrightarrow> R u w"
    and x: "x \<in> S" and ys: "set ys \<subseteq> S" and sorted: "sorted_wrt R ys"
  shows "sorted_wrt R (sort_insert c x ys)"
  using ys sorted
proof (induction ys)
  case Nil
  then show ?case by simp
next
  case (Cons y ys)
  then have y: "y \<in> S" and sub: "set ys \<subseteq> S"
    and after: "\<forall>z \<in> set ys. R y z" and rest: "sorted_wrt R ys"
    by simp_all
  show ?case
  proof (cases "SortCompare c x y \<le> 0")
    case True
    with x y have xy: "R x y" by (rule le)
    have "R x z" if "z \<in> set ys" for z
    proof -
      from that sub have "z \<in> S" by blast
      moreover from that after have "R y z" by blast
      ultimately show ?thesis using x y xy trans by blast
    qed
    with True xy Cons.prems show ?thesis by simp
  next
    case False
    then have "0 < SortCompare c x y" by simp
    with x y have "R y x" by (rule gt)
    with False after Cons.IH [OF sub rest] show ?thesis
      by (simp add: set_sort_insert)
  qed
qed

lemma sorted_wrt_array_sort:
  assumes le: "\<And>u v. u \<in> S \<Longrightarrow> v \<in> S \<Longrightarrow> SortCompare c u v \<le> 0 \<Longrightarrow> R u v"
    and gt: "\<And>u v. u \<in> S \<Longrightarrow> v \<in> S \<Longrightarrow> 0 < SortCompare c u v \<Longrightarrow> R v u"
    and trans: "\<And>u v w. u \<in> S \<Longrightarrow> v \<in> S \<Longrightarrow> w \<in> S \<Longrightarrow> R u v \<Longrightarrow> R v w \<Longrightarrow> R u w"
    and xs: "set xs \<subseteq> S"
  shows "sorted_wrt R (array_sort c xs)"
  using xs
proof (induction xs)
  case Nil
  then show ?case by simp
next
  case (Cons x xs)
  then have "x \<in> S" and "set (array_sort c xs) \<subseteq> S" and "sorted_wrt R (array_sort c xs)"
    by (simp_all add: set_array_sort)
  note here = this
  have "sorted_wrt R (sort_insert c x (array_sort c xs))"
  proof (rule sorted_wrt_sort_insert [of S])
    fix u v
    assume "u \<in> S" "v \<in> S" "SortCompare c u v \<le> 0"
    then show "R u v" by (rule le)
  next
    fix u v
    assume "u \<in> S" "v \<in> S" "0 < SortCompare c u v"
    then show "R v u" by (rule gt)
  next
    fix u v w
    assume "u \<in> S" "v \<in> S" "w \<in> S" "R u v" "R v w"
    then show "R u w" by (rule trans)
  next
    show "x \<in> S" by (rule here(1))
  next
    show "set (array_sort c xs) \<subseteq> S" by (rule here(2))
  next
    show "sorted_wrt R (array_sort c xs)" by (rule here(3))
  qed
  then show ?case by simp
qed

text \<open>
  Stability: two elements that the comparator ties keep their relative order (all their
  occurrences do).
\<close>

lemma filter_pair_sort_insert:
  assumes "\<And>u v. u \<in> {a, b} \<Longrightarrow> v \<in> {a, b} \<Longrightarrow> SortCompare c u v \<le> 0"
  shows "filter (\<lambda>z. z = a \<or> z = b) (sort_insert c x ys)
       = filter (\<lambda>z. z = a \<or> z = b) (x # ys)"
proof (induction ys)
  case Nil
  then show ?case by simp
next
  case (Cons y ys)
  show ?case
  proof (cases "SortCompare c x y \<le> 0")
    case True
    then show ?thesis by simp
  next
    case False
    with assms have "\<not> ((x = a \<or> x = b) \<and> (y = a \<or> y = b))" by blast
    with False Cons.IH show ?thesis by auto
  qed
qed

lemma filter_pair_array_sort:
  assumes "\<And>u v. u \<in> {a, b} \<Longrightarrow> v \<in> {a, b} \<Longrightarrow> SortCompare c u v \<le> 0"
  shows "filter (\<lambda>z. z = a \<or> z = b) (array_sort c xs) = filter (\<lambda>z. z = a \<or> z = b) xs"
proof (induction xs)
  case Nil
  then show ?case by simp
next
  case (Cons x xs)
  have "filter (\<lambda>z. z = a \<or> z = b) (array_sort c (x # xs))
      = filter (\<lambda>z. z = a \<or> z = b) (x # array_sort c xs)"
    using filter_pair_sort_insert [of a b c x "array_sort c xs"] assms by simp
  with Cons.IH show ?case by simp
qed

subsection \<open>Consistent comparators\<close>

lemma consistent_comparator_flip:
  assumes "consistent_comparator c S" and "a \<in> S" and "b \<in> S"
  shows "SortCompare c a b < 0 \<longleftrightarrow> 0 < SortCompare c b a"
  using assms unfolding consistent_comparator_def by blast

lemma consistent_comparator_trans:
  assumes "consistent_comparator c S" and "a \<in> S" and "b \<in> S" and "d \<in> S"
    and "SortCompare c a b \<le> 0" and "SortCompare c b d \<le> 0"
  shows "SortCompare c a d \<le> 0"
  using assms unfolding consistent_comparator_def by blast

text \<open>The conditions that ECMAScript lists for a consistent comparator.\<close>

lemma consistent_comparator_refl:
  assumes c: "consistent_comparator c S" and a: "a \<in> S"
  shows "SortCompare c a a = 0"
  using consistent_comparator_flip [OF c a a] by linarith

lemma consistent_comparator_sym:
  assumes c: "consistent_comparator c S" and a: "a \<in> S" and b: "b \<in> S"
    and tie: "SortCompare c a b = 0"
  shows "SortCompare c b a = 0"
  using consistent_comparator_flip [OF c a b] consistent_comparator_flip [OF c b a] tie
  by linarith

lemma consistent_comparator_tie_trans:
  assumes c: "consistent_comparator c S" and a: "a \<in> S" and b: "b \<in> S" and d: "d \<in> S"
    and ab: "SortCompare c a b = 0" and bd: "SortCompare c b d = 0"
  shows "SortCompare c a d = 0"
proof -
  from ab bd have "SortCompare c a d \<le> 0"
    using consistent_comparator_trans [OF c a b d] by simp
  moreover have "SortCompare c d b = 0" by (rule consistent_comparator_sym [OF c b d bd])
  moreover have "SortCompare c b a = 0" by (rule consistent_comparator_sym [OF c a b ab])
  ultimately have "SortCompare c d a \<le> 0"
    using consistent_comparator_trans [OF c d b a] by simp
  with \<open>SortCompare c a d \<le> 0\<close> show ?thesis
    using consistent_comparator_flip [OF c a d] by linarith
qed

lemma consistent_comparator_below_trans:
  assumes c: "consistent_comparator c S" and a: "a \<in> S" and b: "b \<in> S" and d: "d \<in> S"
    and ab: "SortCompare c a b < 0" and bd: "SortCompare c b d < 0"
  shows "SortCompare c a d < 0"
proof (rule ccontr)
  assume "\<not> SortCompare c a d < 0"
  moreover from ab bd have "SortCompare c a d \<le> 0"
    using consistent_comparator_trans [OF c a b d] by simp
  ultimately have "SortCompare c a d = 0" by simp
  then have "SortCompare c d a = 0" by (rule consistent_comparator_sym [OF c a d])
  with ab have "SortCompare c d b \<le> 0"
    using consistent_comparator_trans [OF c d a b] by simp
  with bd show False
    using consistent_comparator_flip [OF c b d] by linarith
qed

lemma consistent_comparator_above_trans:
  assumes c: "consistent_comparator c S" and a: "a \<in> S" and b: "b \<in> S" and d: "d \<in> S"
    and ab: "0 < SortCompare c a b" and bd: "0 < SortCompare c b d"
  shows "0 < SortCompare c a d"
proof -
  from ab have "SortCompare c b a < 0" using consistent_comparator_flip [OF c b a] by simp
  moreover from bd have "SortCompare c d b < 0"
    using consistent_comparator_flip [OF c d b] by simp
  ultimately have "SortCompare c d a < 0"
    by (rule consistent_comparator_below_trans [OF c d b a, rotated])
  then show ?thesis using consistent_comparator_flip [OF c d a] by simp
qed

subsection \<open>Insertion sort meets the contract\<close>

lemma array_sort_sorted:
  assumes c: "consistent_comparator c (set xs)"
  shows "sorted_wrt (\<lambda>x y. \<not> SortCompare c y x < 0) (array_sort c xs)"
proof (rule sorted_wrt_array_sort [of "set xs"])
  fix u v
  assume "u \<in> set xs" and "v \<in> set xs" and "SortCompare c u v \<le> 0"
  then show "\<not> SortCompare c v u < 0"
    using consistent_comparator_flip [OF c, of v u] by simp
next
  fix u v
  assume "u \<in> set xs" and "v \<in> set xs" and "0 < SortCompare c u v"
  then show "\<not> SortCompare c u v < 0" by simp
next
  fix u v w
  assume u: "u \<in> set xs" and v: "v \<in> set xs" and w: "w \<in> set xs"
    and "\<not> SortCompare c v u < 0" and "\<not> SortCompare c w v < 0"
  then have "SortCompare c u v \<le> 0" and "SortCompare c v w \<le> 0"
    using consistent_comparator_flip [OF c v u] consistent_comparator_flip [OF c w v]
    by simp_all
  then have "SortCompare c u w \<le> 0"
    by (rule consistent_comparator_trans [OF c u v w])
  then show "\<not> SortCompare c w u < 0"
    using consistent_comparator_flip [OF c w u] by simp
next
  show "set xs \<subseteq> set xs" by simp
qed

lemma array_sort_stable:
  assumes c: "consistent_comparator c (set xs)" and a: "a \<in> set xs" and b: "b \<in> set xs"
    and tie: "SortCompare c a b = 0"
  shows "filter (\<lambda>z. z = a \<or> z = b) (array_sort c xs) = filter (\<lambda>z. z = a \<or> z = b) xs"
proof (rule filter_pair_array_sort)
  fix u v
  assume "u \<in> {a, b}" and "v \<in> {a, b}"
  then show "SortCompare c u v \<le> 0"
    using tie consistent_comparator_refl [OF c a] consistent_comparator_refl [OF c b]
      consistent_comparator_sym [OF c a b tie]
    by auto
qed


subsection \<open>A consistent comparator leaves the sort one result\<close>

lemma filter_eq_replicate: "filter (\<lambda>z. z = a) ws = replicate (count (mset ws) a) a"
  by (induction ws) auto

lemma filter_pair_below:
  assumes sorted: "sorted_wrt (\<lambda>x y. \<not> SortCompare c y x < 0) ws"
    and below: "SortCompare c a b < 0" and ne: "a \<noteq> b"
  shows "filter (\<lambda>z. z = a \<or> z = b) ws = filter (\<lambda>z. z = a) ws @ filter (\<lambda>z. z = b) ws"
  using sorted
proof (induction ws)
  case Nil
  then show ?case by simp
next
  case (Cons w ws)
  then have after: "\<forall>z \<in> set ws. \<not> SortCompare c z w < 0"
    and IH: "filter (\<lambda>z. z = a \<or> z = b) ws = filter (\<lambda>z. z = a) ws @ filter (\<lambda>z. z = b) ws"
    by simp_all
  show ?case
  proof (cases "w = b")
    case True
    with after below have "a \<notin> set ws" by blast
    then have "filter (\<lambda>z. z = a) ws = []" by (auto simp: filter_empty_conv)
    with True ne IH show ?thesis by simp
  next
    case False
    with ne IH show ?thesis by simp
  qed
qed

lemma pairwise_filter_eq:
  assumes "mset ys = mset xs"
    and "\<And>a b. a \<in> set xs \<Longrightarrow> b \<in> set xs \<Longrightarrow>
           filter (\<lambda>z. z = a \<or> z = b) ys = filter (\<lambda>z. z = a \<or> z = b) xs"
  shows "ys = xs"
  using assms
proof (induction xs arbitrary: ys)
  case Nil
  then show ?case by simp
next
  case (Cons x xs)
  from Cons.prems(1) have "ys \<noteq> []" by auto
  then obtain y ys' where ys: "ys = y # ys'" by (cases ys) auto
  from Cons.prems(1) have "set ys = set (x # xs)" by (rule mset_eq_setD)
  with ys have y: "y \<in> set (x # xs)" by auto
  have x: "x \<in> set (x # xs)" by simp
  have "filter (\<lambda>z. z = x \<or> z = y) ys = filter (\<lambda>z. z = x \<or> z = y) (x # xs)"
    using x y by (rule Cons.prems(2))
  with ys have yx: "y = x" by simp
  with Cons.prems(1) ys have m: "mset ys' = mset xs" by simp
  have "ys' = xs"
  proof (rule Cons.IH [OF m])
    fix a b
    assume a: "a \<in> set xs" and b: "b \<in> set xs"
    then have "a \<in> set (x # xs)" and "b \<in> set (x # xs)" by simp_all
    then have "filter (\<lambda>z. z = a \<or> z = b) ys = filter (\<lambda>z. z = a \<or> z = b) (x # xs)"
      by (rule Cons.prems(2))
    with ys yx show "filter (\<lambda>z. z = a \<or> z = b) ys' = filter (\<lambda>z. z = a \<or> z = b) xs"
      by (simp split: if_splits)
  qed
  with ys yx show ?case by simp
qed

lemma stable_sorted_unique:
  assumes c: "consistent_comparator c (set xs)"
    and mys: "mset ys = mset xs" and mzs: "mset zs = mset xs"
    and sys: "sorted_wrt (\<lambda>x y. \<not> SortCompare c y x < 0) ys"
    and szs: "sorted_wrt (\<lambda>x y. \<not> SortCompare c y x < 0) zs"
    and tys: "\<And>a b. a \<in> set xs \<Longrightarrow> b \<in> set xs \<Longrightarrow> SortCompare c a b = 0 \<Longrightarrow>
                filter (\<lambda>z. z = a \<or> z = b) ys = filter (\<lambda>z. z = a \<or> z = b) xs"
    and tzs: "\<And>a b. a \<in> set xs \<Longrightarrow> b \<in> set xs \<Longrightarrow> SortCompare c a b = 0 \<Longrightarrow>
                filter (\<lambda>z. z = a \<or> z = b) zs = filter (\<lambda>z. z = a \<or> z = b) xs"
  shows "ys = zs"
proof (rule pairwise_filter_eq)
  from mys mzs show "mset ys = mset zs" by simp
next
  fix a b
  assume "a \<in> set zs" and "b \<in> set zs"
  with mzs have a: "a \<in> set xs" and b: "b \<in> set xs"
    using mset_eq_setD by blast+
  have single: "filter (\<lambda>z. z = u) ys = filter (\<lambda>z. z = u) zs" for u
    using mys mzs by (simp add: filter_eq_replicate)
  have below: "filter (\<lambda>z. z = u \<or> z = v) ys = filter (\<lambda>z. z = u \<or> z = v) zs"
    if u: "u \<in> set xs" and lt: "SortCompare c u v < 0" for u v
  proof -
    from consistent_comparator_refl [OF c u] lt have ne: "u \<noteq> v" by auto
    show ?thesis
      by (simp add: filter_pair_below [OF sys lt ne] filter_pair_below [OF szs lt ne] single)
  qed
  consider "SortCompare c a b = 0" | "SortCompare c a b < 0" | "0 < SortCompare c a b"
    by linarith
  then show "filter (\<lambda>z. z = a \<or> z = b) ys = filter (\<lambda>z. z = a \<or> z = b) zs"
  proof cases
    case 1
    with a b show ?thesis by (simp add: tys tzs)
  next
    case 2
    with a show ?thesis by (rule below)
  next
    case 3
    then have "SortCompare c b a < 0" using consistent_comparator_flip [OF c b a] by simp
    with b have "filter (\<lambda>z. z = b \<or> z = a) ys = filter (\<lambda>z. z = b \<or> z = a) zs"
      by (rule below)
    moreover have "(\<lambda>z. z = b \<or> z = a) = (\<lambda>z. z = a \<or> z = b)" by auto
    ultimately show ?thesis by simp
  qed
qed

text \<open>
  Hence, for a consistent comparator, every sort that meets the contract returns what
  insertion sort returns.
\<close>

lemma sort_contract_unique:
  assumes contract: "sort_contract sort_fn" and c: "consistent_comparator c (set xs)"
  shows "sort_fn c xs = array_sort c xs"
proof (rule stable_sorted_unique [OF c])
  from contract show "mset (sort_fn c xs) = mset xs"
    unfolding sort_contract_def by blast
next
  show "mset (array_sort c xs) = mset xs" by (rule mset_array_sort)
next
  from contract c show "sorted_wrt (\<lambda>x y. \<not> SortCompare c y x < 0) (sort_fn c xs)"
    unfolding sort_contract_def by blast
next
  from c show "sorted_wrt (\<lambda>x y. \<not> SortCompare c y x < 0) (array_sort c xs)"
    by (rule array_sort_sorted)
next
  fix a b
  assume "a \<in> set xs" and "b \<in> set xs" and "SortCompare c a b = 0"
  with contract c
  show "filter (\<lambda>z. z = a \<or> z = b) (sort_fn c xs) = filter (\<lambda>z. z = a \<or> z = b) xs"
    unfolding sort_contract_def by blast
next
  fix a b
  assume "a \<in> set xs" and "b \<in> set xs" and "SortCompare c a b = 0"
  with c show "filter (\<lambda>z. z = a \<or> z = b) (array_sort c xs) = filter (\<lambda>z. z = a \<or> z = b) xs"
    by (rule array_sort_stable)
qed

subsection \<open>Consequences of the contract\<close>





section \<open>Properties of filtering and search\<close>

lemma sort_insert_tie:
  "(\<And>y. SortCompare c x y \<le> 0) \<Longrightarrow> sort_insert c x ys = x # ys"
  by (cases ys) simp_all

lemma array_sort_sortTasksByField:
  "array_sort (sortTasksByField field direction) xs = xs"
  by (induction xs) (simp_all add: sort_insert_tie SortCompare_def sortTasksByField_def)

text \<open>
  The stub comparator is consistent on every list, so every sort that meets the contract
  of \<open>Array.prototype.sort\<close> returns the list as it is.
\<close>

lemma consistent_sortTasksByField:
  "consistent_comparator (sortTasksByField field direction) S"
  by (simp add: consistent_comparator_def SortCompare_def sortTasksByField_def)

lemma sort_contract_sortTasksByField:
  assumes "sort_contract sort_fn"
  shows "sort_fn (sortTasksByField field direction) xs = xs"
  using sort_contract_unique [OF assms consistent_sortTasksByField, of field direction xs]
  by (simp add: array_sort_sortTasksByField)

text \<open>
  Claim C4, as the code has it. The result is the list of all tasks that pass the search and
  the three filters together, in their original order. The category and priority filters
  are \<open>all\<close> or an exact case-insensitive match. The status filter is \<open>all\<close> or compares
  the filter value with the slug of the status: the status in lower case with its first
  space replaced by a hyphen. A category filter \<open>X\<close> yields only tasks whose category
  equals \<open>X\<close> up to case.
\<close>

theorem C4_filters_compose:
  "applyFiltersAndSorting allTasks f field direction =
     filter (\<lambda>t. (search f = [] \<or> search_match (search f) t)
                \<and> (category_f f = ''all''
                     \<or> toLowerCase (category t) = toLowerCase (category_f f))
                \<and> (priority_f f = ''all''
                     \<or> toLowerCase (priority t) = toLowerCase (priority_f f))
                \<and> (status_f f = ''all''
                     \<or> replace_char CHR '' '' CHR ''-'' (toLowerCase (status t))
                          = toLowerCase (status_f f)))
       allTasks
   \<and> (category_f f \<noteq> ''all'' \<longrightarrow>
        (\<forall>t \<in> set (applyFiltersAndSorting allTasks f field direction).
           toLowerCase (category t) = toLowerCase (category_f f)))"
proof -
  have eq: "applyFiltersAndSorting allTasks f field direction =
     filter (\<lambda>t. (search f = [] \<or> search_match (search f) t)
                \<and> (category_f f = ''all''
                     \<or> toLowerCase (category t) = toLowerCase (category_f f))
                \<and> (priority_f f = ''all''
                     \<or> toLowerCase (priority t) = toLowerCase (priority_f f))
                \<and> (status_f f = ''all''
                     \<or> replace_char CHR '' '' CHR ''-'' (toLowerCase (status t))
                          = toLowerCase (status_f f)))
       allTasks"
    unfolding applyFiltersAndSorting_def searchTasks_def Let_def array_sort_sortTasksByField
    by (auto intro: filter_cong)
  then show ?thesis by auto
qed

theorem C4_filters_compose_witness:
  "category_f \<lparr>search = [], category_f = ''PHYSICS'', priority_f = ''all'',
               status_f = ''in-progress''\<rparr> \<noteq> ''all''
   \<and> applyFiltersAndSorting
      [\<lparr>title = ''Quarter 3 Report'', description = None, category = ''Mathematics'',
        priority = ''High'', status = ''In Progress'', dueDate = None,
        estimatedHours = None, assignee = None, tags = None, difficulty = None,
        task_id = ''task_1'', createdAt = None, updatedAt = None, userId = None\<rparr>,
       \<lparr>title = ''Lab Report'', description = None, category = ''Physics'',
        priority = ''Medium'', status = ''In Progress'', dueDate = None,
        estimatedHours = None, assignee = None, tags = None, difficulty = None,
        task_id = ''task_2'', createdAt = None, updatedAt = None, userId = None\<rparr>,
       \<lparr>title = ''Optics Quiz'', description = None, category = ''Physics'',
        priority = ''Low'', status = ''Completed'', dueDate = None,
        estimatedHours = None, assignee = None, tags = None, difficulty = None,
        task_id = ''task_3'', createdAt = None, updatedAt = None, userId = None\<rparr>]
      \<lparr>search = [], category_f = ''PHYSICS'', priority_f = ''all'',
       status_f = ''in-progress''\<rparr>
      ''priority'' ''desc''
    = [\<lparr>title = ''Lab Report'', description = None, category = ''Physics'',
        priority = ''Medium'', status = ''In Progress'', dueDate = None,
        estimatedHours = None, assignee = None, tags = None, difficulty = None,
        task_id = ''task_2'', createdAt = None, updatedAt = None, userId = None\<rparr>]
   \<and> toLowerCase ''Physics'' = toLowerCase ''PHYSICS''"
proof -
  let ?t1 = "\<lparr>title = ''Quarter 3 Report'', description = None, category = ''Mathematics'',
        priority = ''High'', status = ''In Progress'', dueDate = None,
        estimatedHours = None, assignee = None, tags = None, difficulty = None,
        task_id = ''task_1'', createdAt = None, updatedAt = None, userId = None\<rparr>"
  let ?t2 = "\<lparr>title = ''Lab Report'', description = None, category = ''Physics'',
        priority = ''Medium'', status = ''In Progress'', dueDate = None,
        estimatedHours = None, assignee = None, tags = None, difficulty = None,
        task_id = ''task_2'', createdAt = None, updatedAt = None, userId = None\<rparr>"
  let ?t3 = "\<lparr>title = ''Optics Quiz'', description = None, category = ''Physics'',
        priority = ''Low'', status = ''Completed'', dueDate = None,
        estimatedHours = None, assignee = None, tags = None, difficulty = None,
        task_id = ''task_3'', createdAt = None, updatedAt = None, userId = None\<rparr>"
  let ?f = "\<lparr>search = [], category_f = ''PHYSICS'', priority_f = ''all'',
       status_f = ''in-progress''\<rparr>"
  let ?keep = "\<lambda>t. (search ?f = [] \<or> search_match (search ?f) t)
                \<and> (category_f ?f = ''all''
                     \<or> toLowerCase (category t) = toLowerCase (category_f ?f))
                \<and> (priority_f ?f = ''all''
                     \<or> toLowerCase (priority t) = toLowerCase (priority_f ?f))
                \<and> (status_f ?f = ''all''
                     \<or> replace_char CHR '' '' CHR ''-'' (toLowerCase (status t))
                          = toLowerCase (status_f ?f))"
  have low: "toLowerCase ''Physics'' = toLowerCase ''PHYSICS''" by code_simp
  have notall: "category_f ?f \<noteq> ''all''" by simp
  from C4_filters_compose [of "[?t1, ?t2, ?t3]" ?f "''priority''" "''desc''"]
  have "applyFiltersAndSorting [?t1, ?t2, ?t3] ?f ''priority'' ''desc''
          = filter ?keep [?t1, ?t2, ?t3]"
    by (rule conjunct1)
  also have "\<dots> = [?t2]"
    by code_simp
  finally show ?thesis using low notall by (simp only: simp_thms)
qed

text \<open>
  The claim as stated fails for the status filter: the filter value \<open>In Progress\<close> is an
  exact match of the status \<open>In Progress\<close>, and the task is filtered out.
\<close>

theorem C4_counterexample:
  "applyFiltersAndSorting
      [\<lparr>title = ''Lab Report'', description = None, category = ''Physics'',
        priority = ''Medium'', status = ''In Progress'', dueDate = None,
        estimatedHours = None, assignee = None, tags = None, difficulty = None,
        task_id = ''task_2'', createdAt = None, updatedAt = None, userId = None\<rparr>]
      \<lparr>search = [], category_f = ''all'', priority_f = ''all'',
       status_f = ''In Progress''\<rparr>
      ''priority'' ''desc''
    = []
   \<and> toLowerCase ''In Progress'' = toLowerCase ''In Progress''"
  by code_simp

lemma startsWith_iff: "startsWith hay needle \<longleftrightarrow> (\<exists>s. hay = needle @ s)"
  by (induction hay needle rule: startsWith.induct) auto

lemma str_includes_iff: "str_includes hay needle \<longleftrightarrow> (\<exists>p s. hay = p @ needle @ s)"
proof (induction hay)
  case Nil
  then show ?case by auto
next
  case (Cons h hs)
  show ?case
  proof
    assume "str_includes (h # hs) needle"
    then consider "startsWith (h # hs) needle" | "str_includes hs needle" by auto
    then show "\<exists>p s. h # hs = p @ needle @ s"
    proof cases
      case 1
      then obtain s where "h # hs = needle @ s" by (auto simp: startsWith_iff)
      then have "h # hs = [] @ needle @ s" by simp
      then show ?thesis by blast
    next
      case 2
      with Cons obtain p s where "hs = p @ needle @ s" by auto
      then have "h # hs = (h # p) @ needle @ s" by simp
      then show ?thesis by blast
    qed
  next
    assume "\<exists>p s. h # hs = p @ needle @ s"
    then obtain p s where ps: "h # hs = p @ needle @ s" by blast
    show "str_includes (h # hs) needle"
    proof (cases p)
      case Nil
      with ps have "startsWith (h # hs) needle" by (auto simp: startsWith_iff)
      then show ?thesis by simp
    next
      case (Cons a p')
      with ps have "hs = p' @ needle @ s" by simp
      with Cons.IH have "str_includes hs needle" by blast
      then show ?thesis by simp
    qed
  qed
qed

lemma str_includes_Nil [simp]: "str_includes hay []"
  by (cases hay) simp_all

lemma trim_infix: "\<exists>p q. s = p @ trim s @ q"
proof -
  let ?d = "dropWhile isWhiteSpace s"
  have "s = takeWhile isWhiteSpace s @ ?d" by simp
  moreover have "rev ?d = takeWhile isWhiteSpace (rev ?d) @ dropWhile isWhiteSpace (rev ?d)"
    by simp
  then have "?d = trim s @ rev (takeWhile isWhiteSpace (rev ?d))"
    unfolding trim_def by (metis rev_append rev_rev_ident)
  ultimately have "s = takeWhile isWhiteSpace s @ trim s @ rev (takeWhile isWhiteSpace (rev ?d))"
    by simp
  then show ?thesis by blast
qed

lemma str_includes_trim:
  assumes "str_includes hay needle"
  shows "str_includes hay (trim needle)"
proof -
  from assms obtain p s where "hay = p @ needle @ s" by (auto simp: str_includes_iff)
  moreover obtain p' q' where "needle = p' @ trim needle @ q'" using trim_infix by blast
  ultimately have "hay = (p @ p') @ trim needle @ (q' @ s)" by simp
  then show ?thesis unfolding str_includes_iff by blast
qed

lemma isWhiteSpace_toLowerCase_char: "isWhiteSpace (toLowerCase_char c) = isWhiteSpace c"
  by (auto simp: isWhiteSpace_def toLowerCase_char_def Let_def)

lemma toLowerCase_trim: "toLowerCase (trim s) = trim (toLowerCase s)"
proof -
  have "isWhiteSpace \<circ> toLowerCase_char = isWhiteSpace"
    by (rule ext) (simp add: isWhiteSpace_toLowerCase_char)
  then show ?thesis
    by (simp add: toLowerCase_def trim_def dropWhile_map rev_map)
qed

lemma contains_ci_Nil [simp]: "contains_ci field []"
  by (simp add: contains_ci_def toLowerCase_def)

lemma toLowerCase_Nil_iff [simp]: "toLowerCase s = [] \<longleftrightarrow> s = []"
  by (simp add: toLowerCase_def)

lemma spec_search_match_Nil: "spec_search_match [] t"
  by (simp add: spec_search_match_def)

lemma search_match_eq_spec:
  assumes "searchTerm = toLowerCase s" and "searchTerm \<noteq> []"
  shows "search_match searchTerm t = spec_search_match s t"
proof -
  have d: "(d \<noteq> [] \<and> str_includes (toLowerCase d) searchTerm)
            = str_includes (toLowerCase d) searchTerm" for d
    using assms(2) by (cases d) (auto simp: toLowerCase_def)
  show ?thesis
    unfolding search_match_def spec_search_match_def contains_ci_def d assms(1) [symmetric]
    by (auto split: option.splits)
qed

text \<open>
  Claim C5, as the code has it. A search for the text \<open>s\<close> stores the term in lower case
  and trimmed, and keeps exactly the tasks of which at least one field (title,
  description, category, assignee, a tag, identifier, status, priority) contains the
  trimmed \<open>s\<close> as a case-insensitive substring. The result is never longer than the
  input, and every task whose title contains \<open>s\<close> itself, case-insensitively, is kept.
\<close>

theorem C5_search_matches_trimmed_term:
  "searchTasks allTasks (performSearch s f) = filter (spec_search_match (trim s)) allTasks
   \<and> length (searchTasks allTasks (performSearch s f)) \<le> length allTasks
   \<and> (\<forall>t \<in> set allTasks.
         contains_ci (title t) s \<longrightarrow> t \<in> set (searchTasks allTasks (performSearch s f)))"
proof -
  let ?tm = "trim (toLowerCase s)"
  have tm: "?tm = toLowerCase (trim s)" by (simp add: toLowerCase_trim)
  have eq: "searchTasks allTasks (performSearch s f)
              = filter (spec_search_match (trim s)) allTasks"
  proof (cases "?tm = []")
    case True
    then have "trim s = []" using tm by simp
    then have "filter (spec_search_match (trim s)) allTasks = allTasks"
      by (simp add: spec_search_match_Nil)
    with True show ?thesis by (simp add: searchTasks_def performSearch_def)
  next
    case False
    then have "search_match ?tm t = spec_search_match (trim s) t" for t
      using search_match_eq_spec [OF tm] by simp
    with False show ?thesis
      by (simp add: searchTasks_def performSearch_def cong: filter_cong)
  qed
  have len: "length (searchTasks allTasks (performSearch s f)) \<le> length allTasks"
    by (simp add: eq)
  have title: "t \<in> set (searchTasks allTasks (performSearch s f))"
    if "t \<in> set allTasks" and "contains_ci (title t) s" for t
  proof -
    from that(2) have "str_includes (toLowerCase (title t)) (trim (toLowerCase s))"
      unfolding contains_ci_def by (rule str_includes_trim)
    then have "contains_ci (title t) (trim s)"
      by (simp add: contains_ci_def toLowerCase_trim)
    then have "spec_search_match (trim s) t" by (simp add: spec_search_match_def)
    with that(1) show ?thesis by (simp add: eq)
  qed
  from eq len title show ?thesis by blast
qed

theorem C5_search_matches_trimmed_term_witness:
  "contains_ci ''Physics Lab Report'' '' Lab ''
   \<and> searchTasks
      [\<lparr>title = ''Physics Lab Report'', description = None, category = ''Physics'',
        priority = ''Medium'', status = ''Pending'', dueDate = None,
        estimatedHours = None, assignee = None, tags = None, difficulty = None,
        task_id = ''task_2'', createdAt = None, updatedAt = None, userId = None\<rparr>,
       \<lparr>title = ''Optics Quiz'', description = Some ''Chapter 4'', category = ''Physics'',
        priority = ''Low'', status = ''Completed'', dueDate = None,
        estimatedHours = None, assignee = Some ''Raj Patel'', tags = Some [''quiz''],
        difficulty = None, task_id = ''task_3'', createdAt = None, updatedAt = None,
        userId = None\<rparr>]
      (performSearch '' Lab ''
        \<lparr>search = [], category_f = ''all'', priority_f = ''all'', status_f = ''all''\<rparr>)
    = [\<lparr>title = ''Physics Lab Report'', description = None, category = ''Physics'',
        priority = ''Medium'', status = ''Pending'', dueDate = None,
        estimatedHours = None, assignee = None, tags = None, difficulty = None,
        task_id = ''task_2'', createdAt = None, updatedAt = None, userId = None\<rparr>]"
proof -
  let ?t2 = "\<lparr>title = ''Physics Lab Report'', description = None, category = ''Physics'',
        priority = ''Medium'', status = ''Pending'', dueDate = None,
        estimatedHours = None, assignee = None, tags = None, difficulty = None,
        task_id = ''task_2'', createdAt = None, updatedAt = None, userId = None\<rparr>"
  let ?t3 = "\<lparr>title = ''Optics Quiz'', description = Some ''Chapter 4'', category = ''Physics'',
        priority = ''Low'', status = ''Completed'', dueDate = None,
        estimatedHours = None, assignee = Some ''Raj Patel'', tags = Some [''quiz''],
        difficulty = None, task_id = ''task_3'', createdAt = None, updatedAt = None,
        userId = None\<rparr>"
  let ?f = "\<lparr>search = [], category_f = ''all'', priority_f = ''all'', status_f = ''all''\<rparr>"
  note inst = C5_search_matches_trimmed_term [of "[?t2, ?t3]" "'' Lab ''" ?f]
  have hit: "contains_ci ''Physics Lab Report'' '' Lab ''" by code_simp
  from inst have "searchTasks [?t2, ?t3] (performSearch '' Lab '' ?f)
      = filter (spec_search_match (trim '' Lab '')) [?t2, ?t3]"
    by (rule conjunct1)
  also have "\<dots> = [?t2]" by code_simp
  finally show ?thesis using hit by (simp only: simp_thms)
qed

text \<open>
  The claim as stated fails for a term with white space at an end. No field of the task
  contains \<open>" a"\<close>, a space followed by \<open>a\<close>; the search for it keeps the task, because
  the stored term is \<open>"a"\<close>.
\<close>

theorem C5_counterexample:
  "\<not> spec_search_match '' a''
      \<lparr>title = ''Banana'', description = None, category = ''Art'',
        priority = ''Low'', status = ''Pending'', dueDate = None,
        estimatedHours = None, assignee = None, tags = None, difficulty = None,
        task_id = ''task_7'', createdAt = None, updatedAt = None, userId = None\<rparr>
   \<and> searchTasks
      [\<lparr>title = ''Banana'', description = None, category = ''Art'',
        priority = ''Low'', status = ''Pending'', dueDate = None,
        estimatedHours = None, assignee = None, tags = None, difficulty = None,
        task_id = ''task_7'', createdAt = None, updatedAt = None, userId = None\<rparr>]
      (performSearch '' a''
        \<lparr>search = [], category_f = ''all'', priority_f = ''all'', status_f = ''all''\<rparr>)
    = [\<lparr>title = ''Banana'', description = None, category = ''Art'',
        priority = ''Low'', status = ''Pending'', dueDate = None,
        estimatedHours = None, assignee = None, tags = None, difficulty = None,
        task_id = ''task_7'', createdAt = None, updatedAt = None, userId = None\<rparr>]"
  by code_simp

section \<open>Properties of the relevance sort\<close>

subsection \<open>The comparator of the dashboard\<close>

lemma js_minus_flip:
  "(case js_minus v u of None \<Rightarrow> 0 | Some r \<Rightarrow> r)
     = - (case js_minus u v of None \<Rightarrow> 0 | Some r \<Rightarrow> r)"
  by (cases u; cases v) simp_all

lemma date_minus_flip:
  "(case date_minus e d of None \<Rightarrow> 0 | Some r \<Rightarrow> r)
     = - (case date_minus d e of None \<Rightarrow> 0 | Some r \<Rightarrow> r)"
  by (cases d; cases e) simp_all

lemma SortCompare_relevance_flip:
  "SortCompare sortTasksByRelevance b a = - SortCompare sortTasksByRelevance a b"
proof (cases "statusPriority a = statusPriority b")
  case False
  then show ?thesis
    using js_minus_flip [of "statusPriority b" "statusPriority a"]
    by (simp add: SortCompare_def sortTasksByRelevance_def Let_def)
next
  case status: True
  show ?thesis
  proof (cases "priorityRank a = priorityRank b")
    case False
    with status show ?thesis
      using js_minus_flip [of "priorityRank b" "priorityRank a"]
      by (simp add: SortCompare_def sortTasksByRelevance_def Let_def)
  next
    case prio: True
    show ?thesis
    proof (cases "dueDate a")
      case None
      with status prio show ?thesis
        by (simp add: SortCompare_def sortTasksByRelevance_def Let_def split: option.splits)
    next
      case a: (Some d)
      show ?thesis
      proof (cases "dueDate b")
        case None
        with status prio a show ?thesis
          by (simp add: SortCompare_def sortTasksByRelevance_def Let_def)
      next
        case (Some e)
        with status prio a show ?thesis
          using date_minus_flip [of e d]
          by (simp add: SortCompare_def sortTasksByRelevance_def Let_def)
      qed
    qed
  qed
qed









text \<open>
  When the comparator is consistent. No status and no priority of the list names a member
  of \<open>Object.prototype\<close>, every due date is a valid date, and among the tasks of one status
  rank and one priority rank either all have a due date or none has: then the comparator
  is a consistent ordering of the list.
\<close>

lemma lookup_or_0_number:
  "key \<notin> set Object_prototype_members \<Longrightarrow> \<exists>n. lookup_or_0 table key = Number n"
  by (simp add: lookup_or_0_def split: option.splits)

lemma SortCompare_relevance_numbers:
  assumes "statusPriority a = Number sa" and "statusPriority b = Number sb"
    and "priorityRank a = Number pa" and "priorityRank b = Number pb"
  shows "sortTasksByRelevance a b =
    (if sa \<noteq> sb then Some (sa - sb)
     else if pa \<noteq> pb then Some (pb - pa)
     else case (dueDate a, dueDate b) of
            (Some da, Some db) \<Rightarrow> date_minus da db
          | _ \<Rightarrow> Some 0)"
  using assms by (simp add: sortTasksByRelevance_def Let_def)

lemma consistent_sortTasksByRelevance:
  assumes names: "\<forall>t \<in> S. status t \<notin> set Object_prototype_members
                      \<and> priority t \<notin> set Object_prototype_members"
    and valid: "\<forall>t \<in> S. dueDate t \<noteq> Some InvalidDate"
    and uniform: "\<forall>a \<in> S. \<forall>b \<in> S.
           statusPriority a = statusPriority b \<and> priorityRank a = priorityRank b
           \<longrightarrow> (dueDate a = None \<longleftrightarrow> dueDate b = None)"
  shows "consistent_comparator sortTasksByRelevance S"
proof -
  have ranks: "\<exists>s p. statusPriority t = Number s \<and> priorityRank t = Number p" if "t \<in> S" for t
    using names that lookup_or_0_number [of "status t" STATUS_ORDER]
      lookup_or_0_number [of "priority t" PRIORITY_ORDER]
    by (auto simp: statusPriority_def priorityRank_def)
  have date: "dueDate t = None \<or> (\<exists>x. dueDate t = Some (Instant x))" if "t \<in> S" for t
  proof (cases "dueDate t")
    case None
    then show ?thesis by simp
  next
    case (Some d)
    with valid that show ?thesis by (cases d) auto
  qed
  have number: "sortTasksByRelevance a b \<noteq> None" if a: "a \<in> S" and b: "b \<in> S" for a b
  proof -
    from ranks [OF a] obtain sa pa
      where ra: "statusPriority a = Number sa" "priorityRank a = Number pa" by blast
    from ranks [OF b] obtain sb pb
      where rb: "statusPriority b = Number sb" "priorityRank b = Number pb" by blast
    from date [OF a] date [OF b] show ?thesis
      by (auto simp: SortCompare_relevance_numbers [OF ra(1) rb(1) ra(2) rb(2)])
  qed
  have flip: "SortCompare sortTasksByRelevance a b < 0
      \<longleftrightarrow> 0 < SortCompare sortTasksByRelevance b a" for a b
    using SortCompare_relevance_flip [of a b] by linarith
  have trans: "SortCompare sortTasksByRelevance a d \<le> 0"
    if a: "a \<in> S" and b: "b \<in> S" and d: "d \<in> S"
      and ab: "SortCompare sortTasksByRelevance a b \<le> 0"
      and bd: "SortCompare sortTasksByRelevance b d \<le> 0" for a b d
  proof -
    from ranks [OF a] obtain sa pa
      where ra: "statusPriority a = Number sa" "priorityRank a = Number pa" by blast
    from ranks [OF b] obtain sb pb
      where rb: "statusPriority b = Number sb" "priorityRank b = Number pb" by blast
    from ranks [OF d] obtain sd pd
      where rd: "statusPriority d = Number sd" "priorityRank d = Number pd" by blast
    note ab' = ab [unfolded SortCompare_def SortCompare_relevance_numbers [OF ra(1) rb(1) ra(2) rb(2)]]
    note bd' = bd [unfolded SortCompare_def SortCompare_relevance_numbers [OF rb(1) rd(1) rb(2) rd(2)]]
    have uab: "sa = sb \<and> pa = pb \<longrightarrow> (dueDate a = None \<longleftrightarrow> dueDate b = None)"
      using bspec [OF bspec [OF uniform a] b] unfolding ra rb by simp
    have ubd: "sb = sd \<and> pb = pd \<longrightarrow> (dueDate b = None \<longleftrightarrow> dueDate d = None)"
      using bspec [OF bspec [OF uniform b] d] unfolding rb rd by simp
    show ?thesis
      unfolding SortCompare_def SortCompare_relevance_numbers [OF ra(1) rd(1) ra(2) rd(2)]
      using ab' bd' uab ubd date [OF a] date [OF b] date [OF d]
      by (auto split: if_splits)
  qed
  show ?thesis
    unfolding consistent_comparator_def
    using number flip trans by blast
qed

text \<open>
  A status that names a member of \<open>Object.prototype\<close> has that member for its rank, and the
  comparison with a task of another status rank is \<open>NaN\<close>: the comparator is a consistent
  ordering of no list that holds both tasks.
\<close>

lemma statusPriority_inherited:
  assumes "status a \<in> set Object_prototype_members"
  shows "statusPriority a = Inherited (status a)"
  using assms
  by (auto simp: statusPriority_def lookup_or_0_def STATUS_ORDER_def
        Object_prototype_members_def)

lemma sortTasksByRelevance_inherited:
  assumes "status a \<in> set Object_prototype_members"
    and "statusPriority b \<noteq> statusPriority a"
  shows "sortTasksByRelevance a b = None" and "sortTasksByRelevance b a = None"
proof -
  from assms(1) have a: "statusPriority a = Inherited (status a)"
    by (rule statusPriority_inherited)
  have "js_minus (Inherited k) v = None" for k v by simp
  moreover have "js_minus v (Inherited k) = None" for k v by (cases v) simp_all
  ultimately show "sortTasksByRelevance a b = None" and "sortTasksByRelevance b a = None"
    using assms(2) a by (simp_all add: sortTasksByRelevance_def Let_def)
qed

lemma inherited_not_consistent:
  assumes "a \<in> S" and "b \<in> S" and "status a \<in> set Object_prototype_members"
    and "statusPriority b \<noteq> statusPriority a"
  shows "\<not> consistent_comparator sortTasksByRelevance S"
  using assms sortTasksByRelevance_inherited(1) [of a b]
  unfolding consistent_comparator_def by blast

text \<open>
  A task without a due date ties with every task of its status rank and priority rank, so
  the comparator is a consistent ordering of no list in which such a task stands with two
  tasks of these ranks that have different due dates.
\<close>

lemma undated_not_consistent:
  assumes a: "a \<in> S" and b: "b \<in> S" and d: "d \<in> S"
    and ab: "SortCompare sortTasksByRelevance a b = 0"
    and bd: "SortCompare sortTasksByRelevance b d = 0"
    and ad: "SortCompare sortTasksByRelevance a d \<noteq> 0"
  shows "\<not> consistent_comparator sortTasksByRelevance S"
proof
  assume c: "consistent_comparator sortTasksByRelevance S"
  from consistent_comparator_tie_trans [OF c a b d ab bd] ad show False by simp
qed

subsection \<open>The sort of the dashboard\<close>





section \<open>Properties of the arithmetic\<close>

lemma round_ties_even_error: "\<bar>of_int (round_ties_even x) - x\<bar> \<le> 1 / 2"
proof -
  have "of_int \<lfloor>x\<rfloor> \<le> x" and "x < of_int \<lfloor>x\<rfloor> + 1" by linarith+
  then show ?thesis
    by (auto simp: round_ties_even_def Let_def)
qed

text \<open>Rounding to 53 significant bits changes a positive value by at most its \<open>2^-53\<close>th.\<close>

lemma scale_round_error:
  "0 < q \<Longrightarrow> \<bar>scale_round q - q\<bar> \<le> q / 2 ^ 53"
proof (induction q rule: scale_round.induct)
  case (1 q)
  show ?case
  proof (cases "2 ^ 53 \<le> q")
    case True
    with "1.prems" have eq: "scale_round q = 2 * scale_round (q / 2)"
      by (subst scale_round.simps) simp
    from "1.prems" True have "\<bar>scale_round (q / 2) - q / 2\<bar> \<le> q / 2 / 2 ^ 53"
      by (intro "1.IH"(1)) simp_all
    then show ?thesis unfolding eq by linarith
  next
    case False
    show ?thesis
    proof (cases "q < 2 ^ 52")
      case True
      with "1.prems" False have eq: "scale_round q = scale_round (2 * q) / 2"
        by (subst scale_round.simps) simp
      from "1.prems" False True have "\<bar>scale_round (2 * q) - 2 * q\<bar> \<le> 2 * q / 2 ^ 53"
        by (intro "1.IH"(2)) simp_all
      then show ?thesis unfolding eq by linarith
    next
      case mid: False
      with "1.prems" False have eq: "scale_round q = of_int (round_ties_even q)"
        by (subst scale_round.simps) simp
      from mid have "1 / 2 \<le> q / 2 ^ 53" by simp
      with round_ties_even_error [of q] show ?thesis unfolding eq by linarith
    qed
  qed
qed

lemma scale_round_0 [simp]: "scale_round 0 = 0"
  by (subst scale_round.simps) simp

lemma binary64_error:
  assumes "0 \<le> q"
  shows "\<bar>binary64 q - q\<bar> \<le> q / 2 ^ 53"
proof (cases "q = 0")
  case True
  then show ?thesis by (simp add: binary64_def)
next
  case False
  with assms have "0 < q" by simp
  then show ?thesis using scale_round_error [of q] by (simp add: binary64_def)
qed

lemma binary64_nonneg:
  assumes "0 \<le> q"
  shows "0 \<le> binary64 q"
proof -
  have "q / 2 ^ 53 \<le> q" using assms by (simp add: field_simps)
  with binary64_error [OF assms] show ?thesis by linarith
qed

text \<open>
  The percentage that the code computes, \<open>(c / t) * 100\<close> in binary64 arithmetic, is
  within \<open>201 / 2^53\<close> of the exact percentage.
\<close>

lemma percentage_close:
  fixes c t :: nat
  assumes "c \<le> t" and "0 < t"
  shows "\<bar>js_times (js_divide (of_nat c) (of_nat t)) 100 - 100 * of_nat c / of_nat t\<bar>
          \<le> 201 / 2 ^ 53
       \<and> 0 \<le> js_times (js_divide (of_nat c) (of_nat t)) 100"
proof -
  define x :: rat where "x = of_nat c / of_nat t"
  define fx where "fx = js_divide (of_nat c) (of_nat t)"
  define y where "y = fx * 100"
  define v where "v = js_times fx 100"
  from assms have x0: "0 \<le> x" and x1: "x \<le> 1" by (simp_all add: x_def)
  have fx: "\<bar>fx - x\<bar> \<le> x / 2 ^ 53"
    unfolding fx_def x_def js_divide_def by (rule binary64_error) simp
  have fx0: "0 \<le> fx"
    unfolding fx_def js_divide_def by (rule binary64_nonneg) simp
  then have y0: "0 \<le> y" by (simp add: y_def)
  have v: "\<bar>v - y\<bar> \<le> y / 2 ^ 53"
    unfolding v_def y_def js_times_def by (rule binary64_error) (use fx0 in simp)
  have v0: "0 \<le> v"
    unfolding v_def js_times_def by (rule binary64_nonneg) (use fx0 in simp)
  have y: "y = 100 * fx" by (simp add: y_def)
  define e :: rat where "e = 1 / 2 ^ 53"
  have e0: "0 \<le> e" and e1: "e \<le> 1 / 100" by (simp_all add: e_def)
  have "x / 2 ^ 53 = e * x" by (simp add: e_def)
  also from x1 e0 have "e * x \<le> e * 1" by (rule mult_left_mono)
  finally have "x / 2 ^ 53 \<le> e" by simp
  with fx have fx': "\<bar>fx - x\<bar> \<le> e" by linarith
  with x1 e1 y have "y \<le> 101" by linarith
  have "y / 2 ^ 53 = e * y" by (simp add: e_def)
  also from \<open>y \<le> 101\<close> e0 have "e * y \<le> e * 101" by (rule mult_left_mono)
  finally have "y / 2 ^ 53 \<le> 101 * e" by simp
  with v have "\<bar>v - y\<bar> \<le> 101 * e" by linarith
  with fx' y have "\<bar>v - 100 * x\<bar> \<le> 201 * e" by linarith
  then have "\<bar>v - 100 * x\<bar> \<le> 201 / 2 ^ 53" by (simp add: e_def)
  moreover have "100 * of_nat c / of_nat t = 100 * x" by (simp add: x_def)
  ultimately have "\<bar>v - 100 * of_nat c / of_nat t\<bar> \<le> 201 / 2 ^ 53" by simp
  with v0 show ?thesis by (simp add: v_def fx_def)
qed

lemma floor_close:
  fixes a b :: rat
  assumes "\<bar>a - b\<bar> < 1"
  shows "\<bar>\<lfloor>a\<rfloor> - \<lfloor>b\<rfloor>\<bar> \<le> 1"
proof -
  have "of_int \<lfloor>a\<rfloor> \<le> a" "a < of_int \<lfloor>a\<rfloor> + 1" "of_int \<lfloor>b\<rfloor> \<le> b" "b < of_int \<lfloor>b\<rfloor> + 1"
    by linarith+
  with assms have "(of_int \<lfloor>a\<rfloor> :: rat) < of_int \<lfloor>b\<rfloor> + 2"
    and "(of_int \<lfloor>b\<rfloor> :: rat) < of_int \<lfloor>a\<rfloor> + 2"
    by linarith+
  then have "\<lfloor>a\<rfloor> < \<lfloor>b\<rfloor> + 2" and "\<lfloor>b\<rfloor> < \<lfloor>a\<rfloor> + 2"
    by (metis of_int_add of_int_less_iff of_int_numeral)+
  then show ?thesis by linarith
qed

text \<open>
  For evaluation: a value that \<open>k\<close> doublings bring into the interval from \<open>2^52\<close> to
  \<open>2^53\<close> is rounded to the nearest multiple of \<open>2^-k\<close>.
\<close>

lemma scale_round_up:
  "2 ^ 52 \<le> q * 2 ^ k \<Longrightarrow> q * 2 ^ k < 2 ^ 53
    \<Longrightarrow> scale_round q = of_int (round_ties_even (q * 2 ^ k)) / 2 ^ k"
proof (induction k arbitrary: q)
  case 0
  then show ?case by (subst scale_round.simps) simp
next
  case (Suc k)
  have pos: "(0::rat) < 2 ^ k" by simp
  from Suc.prems have lo: "2 ^ 52 \<le> (2 * q) * 2 ^ k" and hi: "(2 * q) * 2 ^ k < 2 ^ 53"
    by (simp_all add: mult.assoc mult.left_commute)
  have "0 < q"
  proof (rule ccontr)
    assume "\<not> 0 < q"
    then have "2 * q \<le> 0" by simp
    with pos have "(2 * q) * 2 ^ k \<le> 0" by (simp add: mult_nonpos_nonneg)
    with lo show False by simp
  qed
  have "1 \<le> (2::rat) ^ k" by simp
  with \<open>0 < q\<close> have "(2 * q) * 1 \<le> (2 * q) * 2 ^ k"
    by (intro mult_left_mono) simp_all
  with hi have "2 * q < 2 ^ 53" by simp
  then have small: "q < 2 ^ 52" by simp
  from \<open>0 < q\<close> small have "scale_round q = scale_round (2 * q) / 2"
    by (subst scale_round.simps) simp
  also have "\<dots> = of_int (round_ties_even ((2 * q) * 2 ^ k)) / 2 ^ k / 2"
    using Suc.IH [OF lo hi] by simp
  finally show ?case by (simp add: mult.assoc mult.left_commute)
qed

lemma round_ties_even_fraction:
  assumes "0 < b"
  shows "round_ties_even (of_int a / of_int b) =
    (let f = a div b; r = a mod b
     in if 2 * r < b then f else if b < 2 * r then f + 1 else if even f then f else f + 1)"
proof -
  have fl: "\<lfloor>(of_int a / of_int b :: rat)\<rfloor> = a div b"
    by (rule floor_divide_of_int_eq)
  have "(of_int a :: rat) = of_int (a div b) * of_int b + of_int (a mod b)"
    by (metis div_mult_mod_eq of_int_add of_int_mult)
  with assms have rest: "(of_int a / of_int b :: rat) - of_int (a div b) = of_int (a mod b) / of_int b"
    by (simp add: field_simps)
  have lt: "(of_int (a mod b) / of_int b :: rat) < 1 / 2 \<longleftrightarrow> 2 * (a mod b) < b"
  proof -
    have "(of_int (a mod b) / of_int b :: rat) < 1 / 2 \<longleftrightarrow> (of_int (2 * (a mod b)) :: rat) < of_int b"
      using assms by (simp add: field_simps)
    then show ?thesis by (simp only: of_int_less_iff)
  qed
  have gt: "1 / 2 < (of_int (a mod b) / of_int b :: rat) \<longleftrightarrow> b < 2 * (a mod b)"
  proof -
    have "1 / 2 < (of_int (a mod b) / of_int b :: rat) \<longleftrightarrow> (of_int b :: rat) < of_int (2 * (a mod b))"
      using assms by (simp add: field_simps)
    then show ?thesis by (simp only: of_int_less_iff)
  qed
  show ?thesis
    unfolding round_ties_even_def Let_def fl rest lt gt ..
qed


text \<open>The constant 100 is a binary64 value: rounding leaves it as it is.\<close>

lemma binary64_100: "binary64 100 = 100"
proof -
  have "scale_round 100 = of_int (round_ties_even (100 * 2 ^ 46)) / 2 ^ 46"
    by (rule scale_round_up) simp_all
  also have "(100 * 2 ^ 46 :: rat) = of_int 7036874417766400 / of_int 1" by simp
  also have "round_ties_even (of_int 7036874417766400 / of_int 1) = 7036874417766400"
    by (subst round_ties_even_fraction) simp_all
  finally show ?thesis by (simp add: binary64_def)
qed

section \<open>Properties of the completion rate\<close>

lemma Math_round_percentage:
  fixes c t :: nat
  assumes "c \<le> t" and "0 < t"
  shows "0 \<le> Math_round (js_times (js_divide (of_nat c) (of_nat t)) 100)"
    and "Math_round (js_times (js_divide (of_nat c) (of_nat t)) 100) \<le> 100"
    and "\<bar>Math_round (js_times (js_divide (of_nat c) (of_nat t)) 100)
          - spec_completionRate c t\<bar> \<le> 1"
proof -
  define v where "v = js_times (js_divide (of_nat c) (of_nat t)) 100"
  define p :: rat where "p = 100 * of_nat c / of_nat t"
  from percentage_close [OF assms] have close: "\<bar>v - p\<bar> \<le> 201 / 2 ^ 53" and v0: "0 \<le> v"
    by (simp_all add: v_def p_def)
  have small: "(201 / 2 ^ 53 :: rat) < 1 / 2" by simp
  from assms have "(of_nat c :: rat) \<le> of_nat t" and "(0 :: rat) < of_nat t" by simp_all
  then have "p \<le> 100" by (simp add: p_def field_simps)
  with close small have "v + 1 / 2 < 101" by linarith
  then have "\<lfloor>v + 1 / 2\<rfloor> < 101" by (simp add: floor_less_iff)
  then show "Math_round (js_times (js_divide (of_nat c) (of_nat t)) 100) \<le> 100"
    by (simp add: Math_round_def v_def)
  from v0 have "0 \<le> v + 1 / 2" by simp
  then have "0 \<le> \<lfloor>v + 1 / 2\<rfloor>" by (simp add: zero_le_floor)
  then show "0 \<le> Math_round (js_times (js_divide (of_nat c) (of_nat t)) 100)"
    by (simp add: Math_round_def v_def)
  from close small have "\<bar>(v + 1 / 2) - (p + 1 / 2)\<bar> < 1" by linarith
  then have "\<bar>\<lfloor>v + 1 / 2\<rfloor> - \<lfloor>p + 1 / 2\<rfloor>\<bar> \<le> 1" by (rule floor_close)
  moreover have "(of_nat c / of_nat t * 100 :: rat) = p" by (simp add: p_def)
  with assms have "spec_completionRate c t = \<lfloor>p + 1 / 2\<rfloor>"
    by (simp only: spec_completionRate_def) simp
  ultimately show "\<bar>Math_round (js_times (js_divide (of_nat c) (of_nat t)) 100)
          - spec_completionRate c t\<bar> \<le> 1"
    by (simp add: Math_round_def v_def)
qed

text \<open>
  Claim C2, as the code has it. The dashboard's \<open>overallProgress\<close> and the profile's
  \<open>completionRate\<close> are the same number: 0 for the empty list, and otherwise
  \<open>Math.round\<close> (a half rounded up) of the binary64 product of the binary64 quotient
  \<open>completed / total\<close> with 100. It lies between 0 and 100 and differs by at most 1 from
  the exact percentage rounded half up.
\<close>

theorem C2_completion_rate:
  "overallProgress (calculateTaskStatistics tasks now) =
     (if length tasks = 0 then 0
      else Math_round
             (js_times
                (js_divide (of_nat (length (filter (\<lambda>t. status t = ''Completed'') tasks)))
                           (of_nat (length tasks)))
                100))
   \<and> completionRate (calculateDetailedStatistics tasks now)
       = overallProgress (calculateTaskStatistics tasks now)
   \<and> 0 \<le> overallProgress (calculateTaskStatistics tasks now)
   \<and> overallProgress (calculateTaskStatistics tasks now) \<le> 100
   \<and> overallProgress (calculateTaskStatistics [] now) = 0
   \<and> \<bar>overallProgress (calculateTaskStatistics tasks now)
        - spec_completionRate (length (filter (\<lambda>t. status t = ''Completed'') tasks))
            (length tasks)\<bar> \<le> 1"
proof -
  let ?c = "length (filter (\<lambda>t. status t = ''Completed'') tasks)"
  let ?t = "length tasks"
  let ?r = "overallProgress (calculateTaskStatistics tasks now)"
  have r: "?r = (if ?t = 0 then 0
      else Math_round (js_times (js_divide (of_nat ?c) (of_nat ?t)) 100))"
    by (simp add: calculateTaskStatistics_def Let_def)
  have same: "completionRate (calculateDetailedStatistics tasks now) = ?r"
    by (simp add: calculateTaskStatistics_def calculateDetailedStatistics_def Let_def)
  have empty: "overallProgress (calculateTaskStatistics [] now) = 0"
    by (simp add: calculateTaskStatistics_def)
  have bounds: "0 \<le> ?r \<and> ?r \<le> 100 \<and> \<bar>?r - spec_completionRate ?c ?t\<bar> \<le> 1"
  proof (cases "?t = 0")
    case True
    with r have "?r = 0" by simp
    with True show ?thesis by (simp add: spec_completionRate_def)
  next
    case False
    then have t: "0 < ?t" by simp
    have c: "?c \<le> ?t" by (rule length_filter_le)
    from False have "?r = Math_round (js_times (js_divide (of_nat ?c) (of_nat ?t)) 100)"
      by (simp only: r if_False)
    with Math_round_percentage [OF c t] show ?thesis by simp
  qed
  from r same empty bounds show ?thesis by (simp only: simp_thms)
qed

text \<open>
  The claim as stated fails in exact arithmetic. Of 40 tasks, 23 are completed: the exact
  percentage is 57.5, which rounds half up to 58. In binary64, \<open>23 / 40\<close> is
  \<open>5179139571476070 / 2^53\<close>, just below 0.575; its product with 100 is
  \<open>8092405580431359 / 2^47\<close>, just below 57.5; and \<open>Math.round\<close> gives 57.
\<close>

lemma quotient_23_40: "js_divide 23 40 = 5179139571476070 / 2 ^ 53"
proof -
  have "scale_round (23 / 40) = of_int (round_ties_even (23 / 40 * 2 ^ 53)) / 2 ^ 53"
    by (rule scale_round_up) simp_all
  also have "(23 / 40 * 2 ^ 53 :: rat) = of_int 25895697857380352 / of_int 5" by simp
  also have "round_ties_even (of_int 25895697857380352 / of_int 5) = 5179139571476070"
    by (subst round_ties_even_fraction) simp_all
  finally show ?thesis by (simp add: js_divide_def binary64_def)
qed

lemma product_23_40:
  "js_times (5179139571476070 / 2 ^ 53) 100 = 8092405580431359 / 2 ^ 47"
proof -
  have "scale_round (5179139571476070 / 2 ^ 53 * 100)
      = of_int (round_ties_even (5179139571476070 / 2 ^ 53 * 100 * 2 ^ 47)) / 2 ^ 47"
    by (rule scale_round_up) simp_all
  also have "(5179139571476070 / 2 ^ 53 * 100 * 2 ^ 47 :: rat)
      = of_int 517913957147607000 / of_int 64" by simp
  also have "round_ties_even (of_int 517913957147607000 / of_int 64) = 8092405580431359"
    by (subst round_ties_even_fraction) simp_all
  finally show ?thesis by (simp add: js_times_def binary64_def)
qed

lemma Math_round_23_40: "Math_round (8092405580431359 / 2 ^ 47) = 57"
proof -
  have "(8092405580431359 / 2 ^ 47 + 1 / 2 :: rat)
      = of_int 16325548649218046 / of_int 281474976710656" by simp
  then have "Math_round (8092405580431359 / 2 ^ 47)
      = 16325548649218046 div 281474976710656"
    unfolding Math_round_def by (simp only: floor_divide_of_int_eq)
  then show ?thesis by simp
qed

theorem C2_counterexample:
  "overallProgress (calculateTaskStatistics
      (replicate 23
         \<lparr>title = ''History Essay'', description = None, category = ''History'',
          priority = ''Low'', status = ''Completed'', dueDate = None,
          estimatedHours = None, assignee = None, tags = None, difficulty = None,
          task_id = ''task_1'', createdAt = None, updatedAt = None, userId = None\<rparr>
       @ replicate 17
         \<lparr>title = ''Lab Report'', description = None, category = ''Physics'',
          priority = ''Medium'', status = ''Pending'', dueDate = None,
          estimatedHours = None, assignee = None, tags = None, difficulty = None,
          task_id = ''task_2'', createdAt = None, updatedAt = None, userId = None\<rparr>)
      1710504000000) = 57
   \<and> spec_completionRate 23 40 = 58"
proof -
  have "Math_round (js_times (js_divide 23 40) 100) = 57"
    by (simp only: quotient_23_40 product_23_40 Math_round_23_40)
  moreover have "spec_completionRate 23 40 = 58"
    by (simp add: spec_completionRate_def)
  ultimately show ?thesis
    by (simp add: calculateTaskStatistics_def Let_def)
qed


section \<open>The specification's scenarios\<close>

text \<open>
  Tasks Completed/High, Pending/Low, Pending/High: the relevance sort gives Pending/High,
  Pending/Low, Completed/High, with every sort that meets the contract of
  \<open>Array.prototype.sort\<close>, and the completion rate is 33. The empty list has all
  counts and the rate 0.
\<close>

lemma scenario_relevance_sort:
  assumes "sort_contract sort_fn"
  shows "sort_fn sortTasksByRelevance
     [\<lparr>title = ''History Essay'', description = None, category = ''History'',
       priority = ''High'', status = ''Completed'', dueDate = None,
       estimatedHours = None, assignee = None, tags = None, difficulty = None,
       task_id = ''task_1'', createdAt = None, updatedAt = None, userId = None\<rparr>,
      \<lparr>title = ''Lab Report'', description = None, category = ''Physics'',
       priority = ''Low'', status = ''Pending'', dueDate = None,
       estimatedHours = None, assignee = None, tags = None, difficulty = None,
       task_id = ''task_2'', createdAt = None, updatedAt = None, userId = None\<rparr>,
      \<lparr>title = ''Poetry Review'', description = None, category = ''Literature'',
       priority = ''High'', status = ''Pending'', dueDate = None,
       estimatedHours = None, assignee = None, tags = None, difficulty = None,
       task_id = ''task_3'', createdAt = None, updatedAt = None, userId = None\<rparr>]
   = [\<lparr>title = ''Poetry Review'', description = None, category = ''Literature'',
       priority = ''High'', status = ''Pending'', dueDate = None,
       estimatedHours = None, assignee = None, tags = None, difficulty = None,
       task_id = ''task_3'', createdAt = None, updatedAt = None, userId = None\<rparr>,
      \<lparr>title = ''Lab Report'', description = None, category = ''Physics'',
       priority = ''Low'', status = ''Pending'', dueDate = None,
       estimatedHours = None, assignee = None, tags = None, difficulty = None,
       task_id = ''task_2'', createdAt = None, updatedAt = None, userId = None\<rparr>,
      \<lparr>title = ''History Essay'', description = None, category = ''History'',
       priority = ''High'', status = ''Completed'', dueDate = None,
       estimatedHours = None, assignee = None, tags = None, difficulty = None,
       task_id = ''task_1'', createdAt = None, updatedAt = None, userId = None\<rparr>]"
proof -
  let ?L = "[\<lparr>title = ''History Essay'', description = None, category = ''History'',
       priority = ''High'', status = ''Completed'', dueDate = None,
       estimatedHours = None, assignee = None, tags = None, difficulty = None,
       task_id = ''task_1'', createdAt = None, updatedAt = None, userId = None\<rparr>,
      \<lparr>title = ''Lab Report'', description = None, category = ''Physics'',
       priority = ''Low'', status = ''Pending'', dueDate = None,
       estimatedHours = None, assignee = None, tags = None, difficulty = None,
       task_id = ''task_2'', createdAt = None, updatedAt = None, userId = None\<rparr>,
      \<lparr>title = ''Poetry Review'', description = None, category = ''Literature'',
       priority = ''High'', status = ''Pending'', dueDate = None,
       estimatedHours = None, assignee = None, tags = None, difficulty = None,
       task_id = ''task_3'', createdAt = None, updatedAt = None, userId = None\<rparr>]"
  have consistent: "consistent_comparator sortTasksByRelevance (set ?L)"
  proof (rule consistent_sortTasksByRelevance)
    show "\<forall>t \<in> set ?L. status t \<notin> set Object_prototype_members
                      \<and> priority t \<notin> set Object_prototype_members"
      by (simp add: Object_prototype_members_def)
  next
    show "\<forall>t \<in> set ?L. dueDate t \<noteq> Some InvalidDate" by simp
  next
    show "\<forall>a \<in> set ?L. \<forall>b \<in> set ?L.
           statusPriority a = statusPriority b \<and> priorityRank a = priorityRank b
           \<longrightarrow> (dueDate a = None \<longleftrightarrow> dueDate b = None)"
      by simp
  qed
  have "sort_fn sortTasksByRelevance ?L = array_sort sortTasksByRelevance ?L"
    by (rule sort_contract_unique [OF assms consistent])
  also have "array_sort sortTasksByRelevance ?L =
     [\<lparr>title = ''Poetry Review'', description = None, category = ''Literature'',
       priority = ''High'', status = ''Pending'', dueDate = None,
       estimatedHours = None, assignee = None, tags = None, difficulty = None,
       task_id = ''task_3'', createdAt = None, updatedAt = None, userId = None\<rparr>,
      \<lparr>title = ''Lab Report'', description = None, category = ''Physics'',
       priority = ''Low'', status = ''Pending'', dueDate = None,
       estimatedHours = None, assignee = None, tags = None, difficulty = None,
       task_id = ''task_2'', createdAt = None, updatedAt = None, userId = None\<rparr>,
      \<lparr>title = ''History Essay'', description = None, category = ''History'',
       priority = ''High'', status = ''Completed'', dueDate = None,
       estimatedHours = None, assignee = None, tags = None, difficulty = None,
       task_id = ''task_1'', createdAt = None, updatedAt = None, userId = None\<rparr>]"
    by code_simp
  finally show ?thesis .
qed

lemma quotient_1_3: "js_divide 1 3 = 6004799503160661 / 2 ^ 54"
proof -
  have "scale_round (1 / 3) = of_int (round_ties_even (1 / 3 * 2 ^ 54)) / 2 ^ 54"
    by (rule scale_round_up) simp_all
  also have "(1 / 3 * 2 ^ 54 :: rat) = of_int 18014398509481984 / of_int 3" by simp
  also have "round_ties_even (of_int 18014398509481984 / of_int 3) = 6004799503160661"
    by (subst round_ties_even_fraction) simp_all
  finally show ?thesis by (simp add: js_divide_def binary64_def)
qed

lemma product_1_3:
  "js_times (6004799503160661 / 2 ^ 54) 100 = 4691249611844266 / 2 ^ 47"
proof -
  have "scale_round (6004799503160661 / 2 ^ 54 * 100)
      = of_int (round_ties_even (6004799503160661 / 2 ^ 54 * 100 * 2 ^ 47)) / 2 ^ 47"
    by (rule scale_round_up) simp_all
  also have "(6004799503160661 / 2 ^ 54 * 100 * 2 ^ 47 :: rat)
      = of_int 600479950316066100 / of_int 128" by simp
  also have "round_ties_even (of_int 600479950316066100 / of_int 128) = 4691249611844266"
    by (subst round_ties_even_fraction) simp_all
  finally show ?thesis by (simp add: js_times_def binary64_def)
qed

lemma Math_round_1_3: "Math_round (4691249611844266 / 2 ^ 47) = 33"
proof -
  have "(4691249611844266 / 2 ^ 47 + 1 / 2 :: rat)
      = of_int 9523236712043860 / of_int 281474976710656" by simp
  then have "Math_round (4691249611844266 / 2 ^ 47)
      = 9523236712043860 div 281474976710656"
    unfolding Math_round_def by (simp only: floor_divide_of_int_eq)
  then show ?thesis by simp
qed

lemma scenario_completion_rate:
  "overallProgress (calculateTaskStatistics
     [\<lparr>title = ''History Essay'', description = None, category = ''History'',
       priority = ''High'', status = ''Completed'', dueDate = None,
       estimatedHours = None, assignee = None, tags = None, difficulty = None,
       task_id = ''task_1'', createdAt = None, updatedAt = None, userId = None\<rparr>,
      \<lparr>title = ''Lab Report'', description = None, category = ''Physics'',
       priority = ''Low'', status = ''Pending'', dueDate = None,
       estimatedHours = None, assignee = None, tags = None, difficulty = None,
       task_id = ''task_2'', createdAt = None, updatedAt = None, userId = None\<rparr>,
      \<lparr>title = ''Poetry Review'', description = None, category = ''Literature'',
       priority = ''High'', status = ''Pending'', dueDate = None,
       estimatedHours = None, assignee = None, tags = None, difficulty = None,
       task_id = ''task_3'', createdAt = None, updatedAt = None, userId = None\<rparr>]
     1710504000000) = 33"
proof -
  have "Math_round (js_times (js_divide 1 3) 100) = 33"
    by (simp only: quotient_1_3 product_1_3 Math_round_1_3)
  then show ?thesis
    by (simp add: calculateTaskStatistics_def Let_def)
qed

lemma scenario_empty:
  "calculateTaskStatistics [] now =
     \<lparr>total = 0, completed = 0, pending = 0, inProgress = 0, highPriority = 0,
      overdue = 0, overallProgress = 0\<rparr>"
  "calculateDetailedStatistics [] now =
     \<lparr>totalTasks = 0, completedTasks = 0, pendingTasks = 0, inProgressTasks = 0,
      overdueTasks = 0, completionRate = 0\<rparr>"
  by (simp_all add: calculateTaskStatistics_def calculateDetailedStatistics_def)

end
